theory Spec2Isabelle
  imports Complex_Main "HOL-Library.AList"
begin

section \<open>Data model of package node\<close>

subsection \<open>Dynamic values\<close>

text \<open>
  The values an \<^verbatim>\<open>interface{}\<close> holds in this package: what the JSON decoder
  produces (nil, bool, float64, string, \<^verbatim>\<open>[]interface{}\<close>,
  \<^verbatim>\<open>map[string]interface{}\<close>) and the \<^verbatim>\<open>[]string\<close> a validated run list is.
  A Go map is an association list; the order of the list is the order in which
  \<^verbatim>\<open>range\<close> visits the keys in the run at hand (Go leaves that order open).
  A nil slice or map and an empty one are both the empty list.
\<close>

datatype iface =
    INil
  | IBool bool
  | IFloat64 real
  | IString string
  | IStrings "string list"
  | ISlice "iface list"
  | IMap "(string \<times> iface) list"

type_synonym json_map = "(string \<times> iface) list"

text \<open>\<^verbatim>\<open>m[k]\<close> on a Go map: the zero value (nil) for a missing key.\<close>

definition json_get :: "json_map \<Rightarrow> string \<Rightarrow> iface" where
  "json_get m k = (case map_of m k of None \<Rightarrow> INil | Some v \<Rightarrow> v)"

text \<open>\<^verbatim>\<open>m[k] = v\<close>.\<close>

definition json_set :: "json_map \<Rightarrow> string \<Rightarrow> iface \<Rightarrow> json_map" where
  "json_set m k v = AList.update k v m"

subsection \<open>The node\<close>

record Node =
  Name :: string
  ChefEnvironment :: string
  RunList :: "string list"
  JsonClass :: string
  ChefType :: string
  Automatic :: json_map
  Normal :: json_map
  Default :: json_map
  Override :: json_map

text \<open>\<^verbatim>\<open>new(Node)\<close>: every field at its zero value.\<close>

definition zero_Node :: Node where
  "zero_Node = \<lparr>Name = [], ChefEnvironment = [], RunList = [], JsonClass = [], ChefType = [],
     Automatic = [], Normal = [], Default = [], Override = []\<rparr>"

subsection \<open>Errors\<close>

text \<open>
  A \<^verbatim>\<open>util.Gerror\<close> as node.go uses it: a message (\<^verbatim>\<open>Error()\<close>) and an HTTP
  status that \<^verbatim>\<open>SetStatus\<close> overrides; \<open>None\<close> is the status \<^verbatim>\<open>util.Errorf\<close>
  leaves, which node.go never reads.
\<close>

datatype gerror = Gerror (gerror_msg: string) (gerror_status: "nat option")

definition Errorf :: "string \<Rightarrow> gerror" where
  "Errorf m = Gerror m None"

definition SetStatus :: "gerror \<Rightarrow> nat \<Rightarrow> gerror" where
  "SetStatus g s = Gerror (gerror_msg g) (Some s)"

definition StatusConflict :: nat where
  "StatusConflict = 409"

definition StatusInternalServerError :: nat where
  "StatusInternalServerError = 500"

text \<open>
  A Go \<^verbatim>\<open>error\<close>: the sentinel \<^verbatim>\<open>sql.ErrNoRows\<close>, a \<^verbatim>\<open>util.Gerror\<close>, or any
  other error known by its message (\<^verbatim>\<open>fmt.Errorf\<close>, the SQL driver, the codec).
\<close>

datatype error = ErrNoRows | GErr gerror | Err string

fun Error :: "error \<Rightarrow> string" where
  "Error ErrNoRows = ''sql: no rows in result set''"
| "Error (GErr g) = gerror_msg g"
| "Error (Err m) = m"

text \<open>
  What a call comes to: it returns normally (\<open>Ok\<close>), returns a non-nil error
  (\<open>Fail\<close>), or panics.
\<close>

datatype 'a result = Ok 'a | Fail error | Panic

subsection \<open>Collaborators of package util\<close>

text \<open>
  The validators of package util are called by node.go and defined elsewhere, so
  they are parameters. Each returns Go's pair of a value and an error; the value
  matters even when the error is set, because \<^verbatim>\<open>UpdateFromJson\<close> stores it in
  the request map before it looks at the error.
\<close>

record util =
  ValidateAsString :: "iface \<Rightarrow> string \<times> gerror option"
  ValidateAsFieldString :: "iface \<Rightarrow> string \<times> gerror option"
  ValidateRunList :: "iface \<Rightarrow> string list \<times> gerror option"
  ValidateAttributes :: "string \<Rightarrow> iface \<Rightarrow> json_map \<times> gerror option"
  ValidateEnvName :: "string \<Rightarrow> bool"
  ValidateDBagName :: "string \<Rightarrow> bool"
  FlattenObj :: "Node \<Rightarrow> string list"
  Indexify :: "string list \<Rightarrow> string list"

section \<open>UpdateFromJson\<close>

definition valid_elements :: "string list" where
  "valid_elements = [''name'', ''json_class'', ''chef_type'', ''chef_environment'',
     ''run_list'', ''override'', ''normal'', ''default'', ''automatic'']"

text \<open>
  The labelled loop \<^verbatim>\<open>ValidElem\<close> (lines 215-224) over the keys in the order
  \<^verbatim>\<open>range\<close> yields them: the first key that is no valid element ends the call.
\<close>

fun ValidElem :: "string list \<Rightarrow> gerror option" where
  "ValidElem [] = None"
| "ValidElem (k # ks) =
     (if k \<in> set valid_elements then ValidElem ks
      else Some (Errorf (''Invalid key '' @ k @ '' in request body'')))"

text \<open>Lines 226-230: the validated run list is stored in the map, then the error is read.\<close>

definition validate_run_list :: "util \<Rightarrow> json_map \<Rightarrow> gerror option \<times> json_map" where
  "validate_run_list u json_node =
     (case ValidateRunList u (json_get json_node ''run_list'') of
        (rl, verr) \<Rightarrow> (verr, json_set json_node ''run_list'' (IStrings rl)))"

definition attrs :: "string list" where
  "attrs = [''normal'', ''automatic'', ''default'', ''override'']"

text \<open>Lines 231-237: the loop over the four attribute trees.\<close>

fun validate_attrs :: "util \<Rightarrow> string list \<Rightarrow> json_map \<Rightarrow> gerror option \<times> json_map" where
  "validate_attrs u [] json_node = (None, json_node)"
| "validate_attrs u (a # as) json_node =
     (case ValidateAttributes u a (json_get json_node a) of
        (m, verr) \<Rightarrow>
          (let json_node' = json_set json_node a (IMap m) in
           case verr of
             Some e \<Rightarrow> (Some e, json_node')
           | None \<Rightarrow> validate_attrs u as json_node'))"

definition nil_field_msg :: string where
  "nil_field_msg = ''Field '' @ [CHR 0x27] @ ''name'' @ [CHR 0x27] @ '' nil''"

definition invalid_field_msg :: "string \<Rightarrow> string" where
  "invalid_field_msg f = ''Field '' @ [CHR 0x27] @ f @ [CHR 0x27] @ '' invalid''"

text \<open>
  Lines 239-251, 253-265 and 268-280. The type assertion \<^verbatim>\<open>.(string)\<close> in each block
  reads the string stored on the line before, so it is that string.
\<close>

definition validate_chef_environment :: "util \<Rightarrow> Node \<Rightarrow> json_map \<Rightarrow> gerror option \<times> json_map" where
  "validate_chef_environment u n json_node =
     (case ValidateAsFieldString u (json_get json_node ''chef_environment'') of
        (s, verr) \<Rightarrow>
          (let json_node' = json_set json_node ''chef_environment'' (IString s) in
           case verr of
             Some e \<Rightarrow>
               if gerror_msg e = nil_field_msg
               then (None, json_set json_node' ''chef_environment'' (IString (ChefEnvironment n)))
               else (Some e, json_node')
           | None \<Rightarrow>
               if \<not> ValidateEnvName u s
               then (Some (Errorf (invalid_field_msg ''chef_environment'')), json_node')
               else (None, json_node')))"

definition validate_json_class :: "util \<Rightarrow> Node \<Rightarrow> json_map \<Rightarrow> gerror option \<times> json_map" where
  "validate_json_class u n json_node =
     (case ValidateAsFieldString u (json_get json_node ''json_class'') of
        (s, verr) \<Rightarrow>
          (let json_node' = json_set json_node ''json_class'' (IString s) in
           case verr of
             Some e \<Rightarrow>
               if gerror_msg e = nil_field_msg
               then (None, json_set json_node' ''json_class'' (IString (JsonClass n)))
               else (Some e, json_node')
           | None \<Rightarrow>
               if s \<noteq> ''Chef::Node''
               then (Some (Errorf (invalid_field_msg ''json_class'')), json_node')
               else (None, json_node')))"

definition validate_chef_type :: "util \<Rightarrow> Node \<Rightarrow> json_map \<Rightarrow> gerror option \<times> json_map" where
  "validate_chef_type u n json_node =
     (case ValidateAsFieldString u (json_get json_node ''chef_type'') of
        (s, verr) \<Rightarrow>
          (let json_node' = json_set json_node ''chef_type'' (IString s) in
           case verr of
             Some e \<Rightarrow>
               if gerror_msg e = nil_field_msg
               then (None, json_set json_node' ''chef_type'' (IString (ChefType n)))
               else (Some e, json_node')
           | None \<Rightarrow>
               if s \<noteq> ''node''
               then (Some (Errorf (invalid_field_msg ''chef_type'')), json_node')
               else (None, json_node')))"

text \<open>
  Lines 283-290, "and setting": eight assignments, each through a type assertion
  that panics on a value of another type, leaving the fields assigned so far.
\<close>

definition set_fields :: "Node \<Rightarrow> json_map \<Rightarrow> unit result \<times> Node" where
  "set_fields n json_node =
     (case json_get json_node ''chef_environment'' of
        IString v1 \<Rightarrow>
          (let n1 = n\<lparr>ChefEnvironment := v1\<rparr> in
           case json_get json_node ''chef_type'' of
             IString v2 \<Rightarrow>
               (let n2 = n1\<lparr>ChefType := v2\<rparr> in
                case json_get json_node ''json_class'' of
                  IString v3 \<Rightarrow>
                    (let n3 = n2\<lparr>JsonClass := v3\<rparr> in
                     case json_get json_node ''run_list'' of
                       IStrings v4 \<Rightarrow>
                         (let n4 = n3\<lparr>RunList := v4\<rparr> in
                          case json_get json_node ''normal'' of
                            IMap v5 \<Rightarrow>
                              (let n5 = n4\<lparr>Normal := v5\<rparr> in
                               case json_get json_node ''automatic'' of
                                 IMap v6 \<Rightarrow>
                                   (let n6 = n5\<lparr>Automatic := v6\<rparr> in
                                    case json_get json_node ''default'' of
                                      IMap v7 \<Rightarrow>
                                        (let n7 = n6\<lparr>Default := v7\<rparr> in
                                         case json_get json_node ''override'' of
                                           IMap v8 \<Rightarrow> (Ok (), n7\<lparr>Override := v8\<rparr>)
                                         | _ \<Rightarrow> (Panic, n7))
                                    | _ \<Rightarrow> (Panic, n6))
                               | _ \<Rightarrow> (Panic, n5))
                          | _ \<Rightarrow> (Panic, n4))
                     | _ \<Rightarrow> (Panic, n3))
                | _ \<Rightarrow> (Panic, n2))
           | _ \<Rightarrow> (Panic, n1))
      | _ \<Rightarrow> (Panic, n))"

text \<open>
  \<^verbatim>\<open>func (n *Node) UpdateFromJson(json_node map[string]interface{}) util.Gerror\<close>.
  The receiver and the map are both passed by reference, so the call returns what
  it leaves in each next to its own result. The function reads and writes nothing
  else: no store, no index, no configuration.
\<close>

definition UpdateFromJson :: "util \<Rightarrow> Node \<Rightarrow> json_map \<Rightarrow> unit result \<times> Node \<times> json_map" where
  "UpdateFromJson u n json_node =
     (case ValidateAsString u (json_get json_node ''name'') of
        (node_name, Some nerr) \<Rightarrow> (Fail (GErr nerr), n, json_node)
      | (node_name, None) \<Rightarrow>
          if Name n \<noteq> node_name
          then (Fail (GErr (Errorf (''Node name '' @ Name n @ '' and '' @ node_name @
                  '' from JSON do not match.''))), n, json_node)
          else
            (case ValidElem (map fst json_node) of
               Some err \<Rightarrow> (Fail (GErr err), n, json_node)
             | None \<Rightarrow>
                 (case validate_run_list u json_node of
                    (Some verr, j1) \<Rightarrow> (Fail (GErr verr), n, j1)
                  | (None, j1) \<Rightarrow>
                      (case validate_attrs u attrs j1 of
                         (Some verr, j2) \<Rightarrow> (Fail (GErr verr), n, j2)
                       | (None, j2) \<Rightarrow>
                           (case validate_chef_environment u n j2 of
                              (Some verr, j3) \<Rightarrow> (Fail (GErr verr), n, j3)
                            | (None, j3) \<Rightarrow>
                                (case validate_json_class u n j3 of
                                   (Some verr, j4) \<Rightarrow> (Fail (GErr verr), n, j4)
                                 | (None, j4) \<Rightarrow>
                                     (case validate_chef_type u n j4 of
                                        (Some verr, j5) \<Rightarrow> (Fail (GErr verr), n, j5)
                                      | (None, j5) \<Rightarrow>
                                          (case set_fields n j5 of
                                             (r, n') \<Rightarrow> (r, n', j5)))))))))"

section \<open>Storage and index\<close>

subsection \<open>The relational store\<close>

text \<open>
  The two tables as the SQL of node.go names their columns (the timestamps are
  left out: nothing reads them). A blob column holds a value of the opaque type
  \<open>'b\<close>; node.go only hands blobs from the codec to the database and back.
\<close>

record 'b node_row =
  n_id :: int
  n_name :: string
  n_environment_id :: int
  n_run_list :: 'b
  n_automatic_attr :: 'b
  n_normal_attr :: 'b
  n_default_attr :: 'b
  n_override_attr :: 'b

record env_row =
  e_id :: int
  e_name :: string

record 'b database =
  nodes :: "'b node_row list"
  environments :: "env_row list"

text \<open>
  The calls into \<^verbatim>\<open>database/sql\<close> that can fail for reasons of the driver's own;
  which of them do is a parameter of the world (\<open>driver\<close> below).
\<close>

datatype dbcall = DbBegin | DbPrepare | DbQuery | DbExec

text \<open>
  The codec of package data_store is called by node.go and defined elsewhere, so
  it is a parameter. The second argument of \<^verbatim>\<open>DecodeBlob\<close> is the shape hint.
\<close>

record 'b codec =
  EncodeBlob :: "iface \<Rightarrow> error + 'b"
  DecodeBlob :: "'b \<Rightarrow> iface \<Rightarrow> error + iface"

subsection \<open>The world a call runs in\<close>

text \<open>
  \<open>UseMySQL\<close> is \<^verbatim>\<open>config.Config.UseMySQL\<close>; \<open>heap\<close> holds the \<^verbatim>\<open>Node\<close> structs,
  a \<^verbatim>\<open>*Node\<close> being an index into it (an index past the end is the nil pointer);
  \<open>store\<close> is the in-memory data store, which keeps the pointers it is given;
  \<open>Dbh\<close> is the database behind \<^verbatim>\<open>data_store.Dbh\<close>; \<open>index\<close> is the search index.
\<close>

record 'b world =
  UseMySQL :: bool
  heap :: "Node list"
  store :: "string \<times> string \<rightharpoonup> nat"
  Dbh :: "'b database"
  driver :: "dbcall \<Rightarrow> string option"
  index :: "string \<times> string \<rightharpoonup> string list"

text \<open>
  Modelled from the spec: \<^verbatim>\<open>data_store.CheckForOne\<close>, which is not among the sources.
  It is the existence probe of the relational variant, a lookup by name that
  gives the row's internal identifier; node.go compares its error with
  \<^verbatim>\<open>sql.ErrNoRows\<close> to tell "no such row" from a fault.
\<close>

definition CheckForOne :: "(dbcall \<Rightarrow> string option) \<Rightarrow> 'b database \<Rightarrow> string \<Rightarrow> string \<Rightarrow> error + int" where
  "CheckForOne drv db tbl name =
     (case drv DbQuery of
        Some m \<Rightarrow> Inl (Err m)
      | None \<Rightarrow>
          (case map_of
                  (if tbl = ''nodes'' then map (\<lambda>r. (n_name r, n_id r)) (nodes db)
                   else if tbl = ''environments'' then map (\<lambda>r. (e_name r, e_id r)) (environments db)
                   else []) name of
             None \<Rightarrow> Inl ErrNoRows
           | Some i \<Rightarrow> Inr i))"

text \<open>
  Modelled from the spec: \<^verbatim>\<open>Get\<close> and \<^verbatim>\<open>Set\<close> of the in-memory data store, which
  are not among the sources: direct map operations keyed by kind and name, the
  object stored by reference. \<^verbatim>\<open>Get\<close> returns Go's pair of the stored value
  (the nil interface, \<open>None\<close>, when there is none) and the flag \<^verbatim>\<open>found\<close>.
\<close>

definition ds_Get :: "'b world \<Rightarrow> string \<Rightarrow> string \<Rightarrow> nat option \<times> bool" where
  "ds_Get w kind name = (store w (kind, name), store w (kind, name) \<noteq> None)"

definition ds_Set :: "'b world \<Rightarrow> string \<Rightarrow> string \<Rightarrow> nat \<Rightarrow> 'b world" where
  "ds_Set w kind name obj = w\<lparr>store := (store w)((kind, name) \<mapsto> obj)\<rparr>"

subsection \<open>The three SQL statements\<close>

text \<open>
  Line 330: \<^verbatim>\<open>UPDATE nodes n, environments e SET n.environment_id = e.id, ... WHERE n.id = ? and e.name = ?\<close>.
  The rows of the join of the two tables that pass the condition are updated; when
  no environment has the name the join is empty, no row changes and the statement
  still succeeds.
\<close>

definition update_nodes :: "'b database \<Rightarrow> 'b \<Rightarrow> 'b \<Rightarrow> 'b \<Rightarrow> 'b \<Rightarrow> 'b \<Rightarrow> int \<Rightarrow> string \<Rightarrow> 'b database" where
  "update_nodes tx rlb aab nab dab oab node_id env =
     (case find (\<lambda>e. e_name e = env) (environments tx) of
        None \<Rightarrow> tx
      | Some e \<Rightarrow>
          tx\<lparr>nodes :=
            map (\<lambda>r. if n_id r = node_id
                      then r\<lparr>n_environment_id := e_id e, n_run_list := rlb,
                             n_automatic_attr := aab, n_normal_attr := nab,
                             n_default_attr := dab, n_override_attr := oab\<rparr>
                      else r) (nodes tx)\<rparr>)"

text \<open>
  Line 346: \<^verbatim>\<open>INSERT INTO nodes (name, environment_id, run_list, ...) VALUES (?, ...)\<close>.
  The database gives the new row an identifier above those in use.
\<close>

definition insert_node :: "'b database \<Rightarrow> string \<Rightarrow> int \<Rightarrow> 'b \<Rightarrow> 'b \<Rightarrow> 'b \<Rightarrow> 'b \<Rightarrow> 'b \<Rightarrow> 'b database" where
  "insert_node tx name environment_id rlb aab nab dab oab =
     tx\<lparr>nodes := nodes tx @
        [\<lparr>n_id = foldr max (map n_id (nodes tx)) 0 + 1, n_name = name,
          n_environment_id = environment_id, n_run_list = rlb, n_automatic_attr = aab,
          n_normal_attr = nab, n_default_attr = dab, n_override_attr = oab\<rparr>]\<rparr>"

text \<open>
  Line 165: \<^verbatim>\<open>select n.name, e.name as chef_environment, n.run_list, ... from nodes n join environments as e on n.environment_id = e.id where n.name = ?\<close>.
\<close>

type_synonym 'b joined_row = "string \<times> string \<times> 'b \<times> 'b \<times> 'b \<times> 'b \<times> 'b"

definition select_node :: "'b database \<Rightarrow> string \<Rightarrow> 'b joined_row list" where
  "select_node db name =
     [(n_name n, e_name e, n_run_list n, n_automatic_attr n, n_normal_attr n,
       n_default_attr n, n_override_attr n).
        n \<leftarrow> nodes db, e \<leftarrow> environments db, n_environment_id n = e_id e \<and> n_name n = name]"

text \<open>
  \<^verbatim>\<open>stmt.QueryRow\<close>: the first row of the result; its error, \<^verbatim>\<open>sql.ErrNoRows\<close>
  when there is no row, is what \<^verbatim>\<open>row.Scan\<close> returns.
\<close>

definition QueryRow :: "(dbcall \<Rightarrow> string option) \<Rightarrow> 'b database \<Rightarrow> string \<Rightarrow> error + 'b joined_row" where
  "QueryRow drv db name =
     (case drv DbQuery of
        Some m \<Rightarrow> Inl (Err m)
      | None \<Rightarrow> (case select_node db name of [] \<Rightarrow> Inl ErrNoRows | r # _ \<Rightarrow> Inr r))"

subsection \<open>The index\<close>

definition DocId :: "Node \<Rightarrow> string" where
  "DocId n = Name n"

definition Index :: "Node \<Rightarrow> string" where
  "Index n = ''node''"

definition Flatten :: "util \<Rightarrow> Node \<Rightarrow> string list" where
  "Flatten u n = Indexify u (FlattenObj u n)"

text \<open>
  Modelled from the spec: \<^verbatim>\<open>indexer.IndexObj\<close>, which is not among the sources:
  the flattened index terms of the entity are submitted to the index, keyed by
  entity kind and name.
\<close>

definition IndexObj :: "util \<Rightarrow> nat \<Rightarrow> 'b world \<Rightarrow> 'b world" where
  "IndexObj u p w =
     (let n = heap w ! p in w\<lparr>index := (index w)((Index n, DocId n) \<mapsto> Flatten u n)\<rparr>)"

section \<open>The operations of node.go\<close>

subsection \<open>New\<close>

definition New :: "util \<Rightarrow> string \<Rightarrow> 'b world \<Rightarrow> nat result \<times> 'b world" where
  "New u name w =
     (case (if UseMySQL w then
              (case CheckForOne (driver w) (Dbh w) ''nodes'' name of
                 Inr _ \<Rightarrow>
                   Some (SetStatus (Errorf (''Node '' @ name @ '' already exists'')) StatusConflict)
               | Inl err \<Rightarrow>
                   if err \<noteq> ErrNoRows
                   then Some (SetStatus (Errorf (Error err)) StatusInternalServerError)
                   else None)
            else
              (case ds_Get w ''node'' name of
                 (_, found) \<Rightarrow>
                   if found
                   then Some (SetStatus (Errorf (''Node '' @ name @ '' already exists'')) StatusConflict)
                   else None)) of
        Some gerr \<Rightarrow> (Fail (GErr gerr), w)
      | None \<Rightarrow>
          if \<not> ValidateDBagName u name
          then (Fail (GErr (Errorf (invalid_field_msg ''name''))), w)
          else
            (Ok (length (heap w)),
             w\<lparr>heap := heap w @
                [\<lparr>Name = name, ChefEnvironment = ''_default'', RunList = [],
                  JsonClass = ''Chef::Node'', ChefType = ''node'',
                  Automatic = [], Normal = [], Default = [], Override = []\<rparr>]\<rparr>))"

subsection \<open>fillNodeFromSQL and Get\<close>

text \<open>
  \<^verbatim>\<open>func (n *Node) fillNodeFromSQL(row *sql.Row) error\<close>, on the receiver's struct;
  the flag is \<^verbatim>\<open>config.Config.UseMySQL\<close>. \<^verbatim>\<open>row.Scan\<close> returns the row's error or
  fills the name, the environment and the five blobs. Each blob is decoded with
  the field it goes to as the shape hint, and the type assertion on the result
  panics when the codec gave a value of another type. \<^verbatim>\<open>data_store.ChkNilArray\<close>
  turns nil slices into empty ones, which are the same list here.
\<close>

definition fillNodeFromSQL :: "'b codec \<Rightarrow> bool \<Rightarrow> Node \<Rightarrow> error + 'b joined_row \<Rightarrow> unit result \<times> Node" where
  "fillNodeFromSQL c mysql n row =
     (if mysql then
        (case row of
           Inl err \<Rightarrow> (Fail err, n)
         | Inr (name, env, rl, aa, na, da, oa) \<Rightarrow>
             (let n0 = n\<lparr>Name := name, ChefEnvironment := env, ChefType := ''node'',
                         JsonClass := ''Chef::Node''\<rparr> in
              case DecodeBlob c rl (IStrings (RunList n0)) of
                Inl err \<Rightarrow> (Fail err, n0)
              | Inr (IStrings q1) \<Rightarrow>
                  (let n1 = n0\<lparr>RunList := q1\<rparr> in
                   case DecodeBlob c aa (IMap (Automatic n1)) of
                     Inl err \<Rightarrow> (Fail err, n1)
                   | Inr (IMap q2) \<Rightarrow>
                       (let n2 = n1\<lparr>Automatic := q2\<rparr> in
                        case DecodeBlob c na (IMap (Normal n2)) of
                          Inl err \<Rightarrow> (Fail err, n2)
                        | Inr (IMap q3) \<Rightarrow>
                            (let n3 = n2\<lparr>Normal := q3\<rparr> in
                             case DecodeBlob c da (IMap (Default n3)) of
                               Inl err \<Rightarrow> (Fail err, n3)
                             | Inr (IMap q4) \<Rightarrow>
                                 (let n4 = n3\<lparr>Default := q4\<rparr> in
                                  case DecodeBlob c oa (IMap (Override n4)) of
                                    Inl err \<Rightarrow> (Fail err, n4)
                                  | Inr (IMap q5) \<Rightarrow> (Ok (), n4\<lparr>Override := q5\<rparr>)
                                  | Inr _ \<Rightarrow> (Panic, n4))
                             | Inr _ \<Rightarrow> (Panic, n3))
                        | Inr _ \<Rightarrow> (Panic, n2))
                   | Inr _ \<Rightarrow> (Panic, n1))
              | Inr _ \<Rightarrow> (Panic, n0)))
      else
        (Fail (Err ''no database configured, operating in in-memory mode -- fillNodeFromSQL cannot be run''), n))"

definition not_found_msg :: "string \<Rightarrow> string" where
  "not_found_msg node_name = ''node '' @ [CHR 0x27] @ node_name @ [CHR 0x27] @ '' not found''"

text \<open>
  \<^verbatim>\<open>func Get(node_name string) (*Node, error)\<close>. With the database, the node is a
  fresh struct filled from the row. Without it, the value the store returns goes
  through the type assertion \<^verbatim>\<open>n.(*Node)\<close> of line 186 before \<^verbatim>\<open>found\<close> is read,
  and that assertion panics on the nil interface.
\<close>

definition Get :: "'b codec \<Rightarrow> string \<Rightarrow> 'b world \<Rightarrow> nat result \<times> 'b world" where
  "Get c node_name w =
     (if UseMySQL w then
        (let node = length (heap w);
             w1 = w\<lparr>heap := heap w @ [zero_Node]\<rparr> in
         case driver w1 DbPrepare of
           Some m \<Rightarrow> (Fail (Err m), w1)
         | None \<Rightarrow>
             (case fillNodeFromSQL c (UseMySQL w1) (heap w1 ! node)
                     (QueryRow (driver w1) (Dbh w1) node_name) of
                (r, n') \<Rightarrow>
                  (let w2 = w1\<lparr>heap := (heap w1)[node := n']\<rparr> in
                   case r of
                     Panic \<Rightarrow> (Panic, w2)
                   | Fail err \<Rightarrow>
                       if err = ErrNoRows then (Fail (Err (not_found_msg node_name)), w2)
                       else (Fail err, w2)
                   | Ok _ \<Rightarrow> (Ok node, w2))))
      else
        (case ds_Get w ''node'' node_name of
           (n, found) \<Rightarrow>
             (case n of
                None \<Rightarrow> (Panic, w)
              | Some node \<Rightarrow>
                  if \<not> found then (Fail (Err (not_found_msg node_name)), w)
                  else (Ok node, w))))"

subsection \<open>Save\<close>

text \<open>
  Lines 296-352, the branch of \<^verbatim>\<open>Save\<close> for the database: \<open>Inl\<close> is the error
  returned (after \<^verbatim>\<open>tx.Rollback()\<close> once the transaction has begun, so the database
  is as before), \<open>Inr\<close> the world after \<^verbatim>\<open>tx.Commit()\<close>.
\<close>

definition Save_sql :: "'b codec \<Rightarrow> Node \<Rightarrow> 'b world \<Rightarrow> error + 'b world" where
  "Save_sql c n w =
     (case EncodeBlob c (IStrings (RunList n)) of
        Inl rlerr \<Rightarrow> Inl rlerr
      | Inr rlb \<Rightarrow>
     (case EncodeBlob c (IMap (Automatic n)) of
        Inl aaerr \<Rightarrow> Inl aaerr
      | Inr aab \<Rightarrow>
     (case EncodeBlob c (IMap (Normal n)) of
        Inl naerr \<Rightarrow> Inl naerr
      | Inr nab \<Rightarrow>
     (case EncodeBlob c (IMap (Default n)) of
        Inl daerr \<Rightarrow> Inl daerr
      | Inr dab \<Rightarrow>
     (case EncodeBlob c (IMap (Override n)) of
        Inl oaerr \<Rightarrow> Inl oaerr
      | Inr oab \<Rightarrow>
     (case driver w DbBegin of
        Some m \<Rightarrow> Inl (Err m)
      | None \<Rightarrow>
          (let tx = Dbh w in
           case CheckForOne (driver w) tx ''nodes'' (Name n) of
             Inr node_id \<Rightarrow>
               (case driver w DbExec of
                  Some m \<Rightarrow> Inl (Err m)
                | None \<Rightarrow>
                    Inr (w\<lparr>Dbh := update_nodes tx rlb aab nab dab oab node_id (ChefEnvironment n)\<rparr>))
           | Inl err \<Rightarrow>
               if err \<noteq> ErrNoRows then Inl err
               else
                 (case CheckForOne (driver w) tx ''environments'' (ChefEnvironment n) of
                    Inl err' \<Rightarrow> Inl err'
                  | Inr environment_id \<Rightarrow>
                      (case driver w DbExec of
                         Some m \<Rightarrow> Inl (Err m)
                       | None \<Rightarrow>
                           Inr (w\<lparr>Dbh := insert_node tx (Name n) environment_id
                                           rlb aab nab dab oab\<rparr>))))))))))"

text \<open>
  \<^verbatim>\<open>func (n *Node) Save() error\<close>, the receiver being the pointer \<open>p\<close>. Nothing in it
  looks at the node's fields before they are stored.
\<close>

definition Save :: "util \<Rightarrow> 'b codec \<Rightarrow> nat \<Rightarrow> 'b world \<Rightarrow> unit result \<times> 'b world" where
  "Save u c p w =
     (if length (heap w) \<le> p then (Panic, w)
      else
        (let n = heap w ! p in
         case (if UseMySQL w then Save_sql c n w
               else Inr (ds_Set w ''node'' (Name n) p)) of
           Inl err \<Rightarrow> (Fail err, w)
         | Inr w' \<Rightarrow> (Ok (), IndexObj u p w')))"

text \<open>A call of \<^verbatim>\<open>UpdateFromJson\<close> on the node a pointer refers to.\<close>

definition UpdateFromJson_at :: "util \<Rightarrow> nat \<Rightarrow> json_map \<Rightarrow> 'b world \<Rightarrow> unit result \<times> json_map \<times> 'b world" where
  "UpdateFromJson_at u p json_node w =
     (if length (heap w) \<le> p then (Panic, json_node, w)
      else
        (case UpdateFromJson u (heap w ! p) json_node of
           (r, n', json_node') \<Rightarrow> (r, json_node', w\<lparr>heap := (heap w)[p := n']\<rparr>)))"

section \<open>The spec's rules, and collaborators to run the model with\<close>

text \<open>
  The absent-means-inherit rule of the spec for a tag-like field, in the spec's
  words: a missing or null field takes the existing entity's value; a field that
  is present must be a string that passes the field's check, and there is no
  canonical value otherwise.
\<close>

definition tag_rule :: "iface \<Rightarrow> string \<Rightarrow> (string \<Rightarrow> bool) \<Rightarrow> string option" where
  "tag_rule v existing ok =
     (case v of
        INil \<Rightarrow> Some existing
      | IString s \<Rightarrow> if ok s then Some s else None
      | _ \<Rightarrow> None)"

text \<open>
  The codec's contract in the spec, for one value and one shape hint: decoding the
  encoded value under the hint gives the value back.
\<close>

definition codec_symmetric :: "'b codec \<Rightarrow> iface \<Rightarrow> iface \<Rightarrow> bool" where
  "codec_symmetric c hint v =
     (case EncodeBlob c v of
        Inl _ \<Rightarrow> False
      | Inr b \<Rightarrow> DecodeBlob c b hint = Inr v)"

text \<open>A name is present in the store of the backend in use.\<close>

definition node_present :: "'b world \<Rightarrow> string \<Rightarrow> bool" where
  "node_present w name =
     (if UseMySQL w then name \<in> set (map n_name (nodes (Dbh w)))
      else store w (''node'', name) \<noteq> None)"

text \<open>
  Modelled from the spec: pieces of the validators of package util, which are not
  among the sources: the message for a field of the wrong type, the rule that a
  name is non-empty and has no reserved characters (letters, digits, underscore
  and hyphen being the characters that are not reserved), and the reading of a
  decoded JSON array as a sequence of strings.
\<close>

definition missing_field_msg :: string where
  "missing_field_msg = ''Field '' @ [CHR 0x27] @ ''name'' @ [CHR 0x27] @ '' missing''"

definition safe_name :: "string \<Rightarrow> bool" where
  "safe_name s =
     (s \<noteq> [] \<and>
      list_all (\<lambda>c. c \<in> set ''abcdefghijklmnopqrstuvwxyzABCDEFGHIJKLMNOPQRSTUVWXYZ0123456789_-'') s)"

fun string_items :: "iface list \<Rightarrow> string list option" where
  "string_items [] = Some []"
| "string_items (IString s # vs) = map_option ((#) s) (string_items vs)"
| "string_items (_ # vs) = None"

text \<open>
  Modelled from the spec: the validators of package util, which are not among the
  sources. This is one set of validators that fits what the spec and node.go say
  of them, for running the model on concrete requests: a name must be a string;
  a tag-like field is a string, or nil with the error message node.go tests for
  (line 241); a run list is an ordered sequence of strings; an attribute tree is
  a mapping, and nil stands for the empty one; a name is non-empty and free of
  reserved characters. The theorems below hold for every set of validators.
\<close>

definition sample_util :: util where
  "sample_util =
     \<lparr>ValidateAsString =
        (\<lambda>v. case v of IString s \<Rightarrow> (s, None) | _ \<Rightarrow> ([], Some (Errorf missing_field_msg))),
      ValidateAsFieldString =
        (\<lambda>v. case v of
                IString s \<Rightarrow> (s, None)
              | INil \<Rightarrow> ([], Some (Errorf nil_field_msg))
              | _ \<Rightarrow> ([], Some (Errorf missing_field_msg))),
      ValidateRunList =
        (\<lambda>v. case v of
                INil \<Rightarrow> ([], None)
              | IStrings rl \<Rightarrow> (rl, None)
              | ISlice vs \<Rightarrow>
                  (case string_items vs of
                     Some rl \<Rightarrow> (rl, None)
                   | None \<Rightarrow> ([], Some (Errorf ''Field run_list is not a valid run list'')))
              | _ \<Rightarrow> ([], Some (Errorf ''Field run_list is not a valid run list''))),
      ValidateAttributes =
        (\<lambda>k v. case v of
                INil \<Rightarrow> ([], None)
              | IMap m \<Rightarrow> (m, None)
              | _ \<Rightarrow> ([], Some (Errorf (''Field '' @ k @ '' is not a hash'')))),
      ValidateEnvName = safe_name,
      ValidateDBagName = safe_name,
      FlattenObj = (\<lambda>n. (''name:'' @ Name n) # map (\<lambda>r. ''run_list:'' @ r) (RunList n)),
      Indexify = (\<lambda>terms. terms)\<rparr>"

text \<open>
  Modelled from the spec: the attribute codec of package data_store, which is not
  among the sources. The spec fixes its contract and not its bytes, so this
  instance keeps the tree itself as the blob; decoding rebuilds the shape the
  hint declares and fails on a blob of another shape. The theorems below hold
  for every codec.
\<close>

definition sample_codec :: "iface codec" where
  "sample_codec =
     \<lparr>EncodeBlob = (\<lambda>v. Inr v),
      DecodeBlob =
        (\<lambda>b hint. case (hint, b) of
                     (IStrings _, IStrings rl) \<Rightarrow> Inr (IStrings rl)
                   | (IMap _, IMap m) \<Rightarrow> Inr (IMap m)
                   | _ \<Rightarrow> Inl (Err ''blob does not decode to the shape of the hint''))\<rparr>"

text \<open>The node that \<^verbatim>\<open>New("web01")\<close> makes, and worlds that hold it.\<close>

definition web01 :: Node where
  "web01 = \<lparr>Name = ''web01'', ChefEnvironment = ''_default'', RunList = [],
     JsonClass = ''Chef::Node'', ChefType = ''node'',
     Automatic = [], Normal = [], Default = [], Override = []\<rparr>"

definition mem_world :: "iface world" where
  "mem_world =
     \<lparr>UseMySQL = False, heap = [web01], store = [(''node'', ''web01'') \<mapsto> 0],
      Dbh = \<lparr>nodes = [], environments = []\<rparr>, driver = (\<lambda>_. None), index = Map.empty\<rparr>"

text \<open>
  A database with the environment \<^verbatim>\<open>_default\<close> and the row of \<^verbatim>\<open>web01\<close> as first
  saved (empty run list, empty trees); the heap holds the node as an update has
  left it.
\<close>

definition sql_world :: "Node \<Rightarrow> iface world" where
  "sql_world n =
     \<lparr>UseMySQL = True, heap = [n], store = Map.empty,
      Dbh = \<lparr>nodes = [\<lparr>n_id = 1, n_name = ''web01'', n_environment_id = 1,
                        n_run_list = IStrings [], n_automatic_attr = IMap [],
                        n_normal_attr = IMap [], n_default_attr = IMap [],
                        n_override_attr = IMap []\<rparr>],
             environments = [\<lparr>e_id = 1, e_name = ''_default''\<rparr>]\<rparr>,
      driver = (\<lambda>_. None), index = Map.empty\<rparr>"

text \<open>
  The node \<^verbatim>\<open>web01\<close> after an update that names the environment \<^verbatim>\<open>staging\<close>, which
  the database of \<open>sql_world\<close> does not have, and gives a run list.
\<close>

definition web01_updated :: Node where
  "web01_updated = web01\<lparr>ChefEnvironment := ''staging'', RunList := [''recipe[nginx]'']\<rparr>"

text \<open>An in-memory world whose only node is the zero struct: its name is empty.\<close>

definition unnamed_world :: "iface world" where
  "unnamed_world =
     \<lparr>UseMySQL = False, heap = [zero_Node], store = Map.empty,
      Dbh = \<lparr>nodes = [], environments = []\<rparr>, driver = (\<lambda>_. None), index = Map.empty\<rparr>"

section \<open>Properties of UpdateFromJson\<close>

subsection \<open>What each validation step leaves in the request map\<close>

lemma json_get_set: "json_get (json_set m k v) k' = (if k' = k then v else json_get m k')"
  by (simp add: json_get_def json_set_def update_conv')

lemma ValidElem_find:
  "ValidElem ks =
     (case find (\<lambda>k. k \<notin> set valid_elements) ks of
        None \<Rightarrow> None
      | Some k \<Rightarrow> Some (Errorf (''Invalid key '' @ k @ '' in request body'')))"
  by (induction ks) simp_all

lemma validate_run_list_get:
  assumes "validate_run_list u j = (r, j1)"
  shows "json_get j1 k =
           (if k = ''run_list'' then IStrings (fst (ValidateRunList u (json_get j ''run_list'')))
            else json_get j k)"
  using assms by (auto simp: validate_run_list_def json_get_set split: prod.splits)

lemma validate_attrs_get:
  assumes "validate_attrs u as j = (None, j')" and "distinct as"
  shows "json_get j' k =
           (if k \<in> set as then IMap (fst (ValidateAttributes u k (json_get j k)))
            else json_get j k)"
  using assms
proof (induction as arbitrary: j)
  case Nil
  then show ?case by simp
next
  case (Cons a as)
  obtain m verr where va: "ValidateAttributes u a (json_get j a) = (m, verr)"
    by (cases "ValidateAttributes u a (json_get j a)")
  from Cons.prems(1) va have verr: "verr = None"
    by (cases verr) (simp_all add: Let_def)
  from Cons.prems(1) va verr
  have rec: "validate_attrs u as (json_set j a (IMap m)) = (None, j')"
    by (simp add: Let_def)
  from Cons.prems(2) have d: "distinct as" and na: "a \<notin> set as" by simp_all
  from Cons.IH [OF rec d] va na show ?case
    by (auto simp: json_get_set)
qed

lemma tag_env_get:
  assumes "validate_chef_environment u n j = (None, j')"
  shows "json_get j' k =
           (if k = ''chef_environment''
            then IString (case ValidateAsFieldString u (json_get j ''chef_environment'') of
                            (s, None) \<Rightarrow> s | (s, Some e) \<Rightarrow> ChefEnvironment n)
            else json_get j k)"
  using assms
  by (auto simp: validate_chef_environment_def json_get_set Let_def
           split: prod.splits option.splits if_splits)

lemma tag_class_get:
  assumes "validate_json_class u n j = (None, j')"
  shows "json_get j' k =
           (if k = ''json_class''
            then IString (case ValidateAsFieldString u (json_get j ''json_class'') of
                            (s, None) \<Rightarrow> s | (s, Some e) \<Rightarrow> JsonClass n)
            else json_get j k)"
  using assms
  by (auto simp: validate_json_class_def json_get_set Let_def
           split: prod.splits option.splits if_splits)

lemma tag_type_get:
  assumes "validate_chef_type u n j = (None, j')"
  shows "json_get j' k =
           (if k = ''chef_type''
            then IString (case ValidateAsFieldString u (json_get j ''chef_type'') of
                            (s, None) \<Rightarrow> s | (s, Some e) \<Rightarrow> ChefType n)
            else json_get j k)"
  using assms
  by (auto simp: validate_chef_type_def json_get_set Let_def
           split: prod.splits option.splits if_splits)

lemma set_fields_Ok:
  assumes "json_get j ''chef_environment'' = IString v1"
    and "json_get j ''chef_type'' = IString v2"
    and "json_get j ''json_class'' = IString v3"
    and "json_get j ''run_list'' = IStrings v4"
    and "json_get j ''normal'' = IMap v5"
    and "json_get j ''automatic'' = IMap v6"
    and "json_get j ''default'' = IMap v7"
    and "json_get j ''override'' = IMap v8"
  shows "set_fields n j =
           (Ok (), n\<lparr>ChefEnvironment := v1, ChefType := v2, JsonClass := v3, RunList := v4,
                      Normal := v5, Automatic := v6, Default := v7, Override := v8\<rparr>)"
  by (simp add: set_fields_def assms)

lemma stages_set_fields:
  assumes s1: "validate_run_list u j = (None, j1)"
    and s2: "validate_attrs u attrs j1 = (None, j2)"
    and s3: "validate_chef_environment u n j2 = (None, j3)"
    and s4: "validate_json_class u n j3 = (None, j4)"
    and s5: "validate_chef_type u n j4 = (None, j5)"
  shows "\<exists>n'. set_fields n j5 = (Ok (), n') \<and> Name n' = Name n \<and>
           json_get j5 ''chef_environment'' = IString (ChefEnvironment n') \<and>
           json_get j5 ''chef_type'' = IString (ChefType n') \<and>
           json_get j5 ''json_class'' = IString (JsonClass n') \<and>
           json_get j5 ''run_list'' = IStrings (RunList n') \<and>
           json_get j5 ''normal'' = IMap (Normal n') \<and>
           json_get j5 ''automatic'' = IMap (Automatic n') \<and>
           json_get j5 ''default'' = IMap (Default n') \<and>
           json_get j5 ''override'' = IMap (Override n')"
proof -
  have d: "distinct attrs" by (simp add: attrs_def)
  note g = tag_type_get [OF s5] tag_class_get [OF s4] tag_env_get [OF s3]
    validate_attrs_get [OF s2 d] validate_run_list_get [OF s1]
  have 1: "\<exists>v. json_get j5 ''chef_environment'' = IString v" by (simp add: g attrs_def)
  have 2: "\<exists>v. json_get j5 ''chef_type'' = IString v" by (simp add: g attrs_def)
  have 3: "\<exists>v. json_get j5 ''json_class'' = IString v" by (simp add: g attrs_def)
  have 4: "\<exists>v. json_get j5 ''run_list'' = IStrings v" by (simp add: g attrs_def)
  have 5: "\<exists>v. json_get j5 ''normal'' = IMap v" by (simp add: g attrs_def)
  have 6: "\<exists>v. json_get j5 ''automatic'' = IMap v" by (simp add: g attrs_def)
  have 7: "\<exists>v. json_get j5 ''default'' = IMap v" by (simp add: g attrs_def)
  have 8: "\<exists>v. json_get j5 ''override'' = IMap v" by (simp add: g attrs_def)
  from 1 2 3 4 5 6 7 8 obtain v1 v2 v3 v4 v5 v6 v7 v8 where
    v: "json_get j5 ''chef_environment'' = IString v1" "json_get j5 ''chef_type'' = IString v2"
       "json_get j5 ''json_class'' = IString v3" "json_get j5 ''run_list'' = IStrings v4"
       "json_get j5 ''normal'' = IMap v5" "json_get j5 ''automatic'' = IMap v6"
       "json_get j5 ''default'' = IMap v7" "json_get j5 ''override'' = IMap v8"
    by blast
  show ?thesis
    using set_fields_Ok [OF v, of n] v by simp
qed

subsection \<open>The node is assigned only after every check has passed\<close>

lemma UpdateFromJson_not_Ok_frame:
  assumes "fst (UpdateFromJson u n j) \<noteq> Ok ()"
  shows "fst (snd (UpdateFromJson u n j)) = n"
proof -
  obtain nm nerr where a: "ValidateAsString u (json_get j ''name'') = (nm, nerr)"
    by (cases "ValidateAsString u (json_get j ''name'')")
  obtain r1 j1 where s1: "validate_run_list u j = (r1, j1)" by (cases "validate_run_list u j")
  obtain r2 j2 where s2: "validate_attrs u attrs j1 = (r2, j2)" by (cases "validate_attrs u attrs j1")
  obtain r3 j3 where s3: "validate_chef_environment u n j2 = (r3, j3)"
    by (cases "validate_chef_environment u n j2")
  obtain r4 j4 where s4: "validate_json_class u n j3 = (r4, j4)"
    by (cases "validate_json_class u n j3")
  obtain r5 j5 where s5: "validate_chef_type u n j4 = (r5, j5)"
    by (cases "validate_chef_type u n j4")
  show ?thesis
  proof (cases "nerr = None \<and> Name n = nm \<and> ValidElem (map fst j) = None \<and> r1 = None \<and>
                r2 = None \<and> r3 = None \<and> r4 = None \<and> r5 = None")
    case True
    with s1 s2 s3 s4 s5 obtain n' where "set_fields n j5 = (Ok (), n')"
      using stages_set_fields [of u j j1 j2 n j3 j4 j5] by auto
    with True a s1 s2 s3 s4 s5 have "fst (UpdateFromJson u n j) = Ok ()"
      by (simp add: UpdateFromJson_def)
    with assms show ?thesis by simp
  next
    case False
    with a s1 s2 s3 s4 s5 show ?thesis
      by (auto simp: UpdateFromJson_def split: option.splits)
  qed
qed

lemma UpdateFromJson_Ok_D:
  assumes "UpdateFromJson u n j = (Ok (), n', j')"
  shows "\<exists>j1 j2 j3 j4.
           ValidateAsString u (json_get j ''name'') = (Name n, None) \<and>
           ValidElem (map fst j) = None \<and>
           validate_run_list u j = (None, j1) \<and>
           validate_attrs u attrs j1 = (None, j2) \<and>
           validate_chef_environment u n j2 = (None, j3) \<and>
           validate_json_class u n j3 = (None, j4) \<and>
           validate_chef_type u n j4 = (None, j') \<and>
           set_fields n j' = (Ok (), n')"
  using assms
  by (auto simp: UpdateFromJson_def split: prod.splits option.splits if_splits)

lemma heap_put_same: "w\<lparr>heap := (heap w)[p := heap w ! p]\<rparr> = w"
  by simp

subsection \<open>The field whitelist\<close>

text \<open>
  Claim C2, as the code has it. \<^verbatim>\<open>UpdateFromJson\<close> checks the name before the
  whitelist (lines 200-207 come before lines 214-224). When the name passes, an
  input with a key outside the fixed set fails with the error
  "Invalid key k in request body", where k is the first such key in the order in
  which the map is iterated, and nothing changes: not the request map, not the
  node, not the store, the database or the index.
\<close>

theorem invalid_key_rejected:
  assumes "p < length (heap w)"
    and "ValidateAsString u (json_get json_node ''name'') = (Name (heap w ! p), None)"
    and "find (\<lambda>k. k \<notin> set valid_elements) (map fst json_node) = Some k"
  shows "UpdateFromJson_at u p json_node w =
           (Fail (GErr (Errorf (''Invalid key '' @ k @ '' in request body''))), json_node, w)"
  using assms
  by (simp add: UpdateFromJson_at_def UpdateFromJson_def ValidElem_find)

theorem invalid_key_rejected_witness:
  "0 < length (heap mem_world) \<and>
   ValidateAsString sample_util
     (json_get [(''name'', IString ''web01''), (''bogus_field'', IBool True), (''zzz'', INil)] ''name'') =
     (Name (heap mem_world ! 0), None) \<and>
   find (\<lambda>k. k \<notin> set valid_elements)
     (map fst [(''name'', IString ''web01''), (''bogus_field'', IBool True), (''zzz'', INil)]) =
     Some ''bogus_field'' \<and>
   UpdateFromJson_at sample_util 0
     [(''name'', IString ''web01''), (''bogus_field'', IBool True), (''zzz'', INil)] mem_world =
     (Fail (GErr (Errorf ''Invalid key bogus_field in request body'')),
      [(''name'', IString ''web01''), (''bogus_field'', IBool True), (''zzz'', INil)], mem_world)"
proof -
  have h1: "0 < length (heap mem_world)" by (simp add: mem_world_def)
  have h2: "ValidateAsString sample_util
     (json_get [(''name'', IString ''web01''), (''bogus_field'', IBool True), (''zzz'', INil)] ''name'') =
     (Name (heap mem_world ! 0), None)"
    by (simp add: sample_util_def json_get_def mem_world_def web01_def)
  have h3: "find (\<lambda>k. k \<notin> set valid_elements)
     (map fst [(''name'', IString ''web01''), (''bogus_field'', IBool True), (''zzz'', INil)]) =
     Some ''bogus_field''"
    by (simp add: valid_elements_def)
  from invalid_key_rejected [OF h1 h2 h3] h1 h2 h3 show ?thesis by simp
qed

text \<open>
  Claim C2 as stated fails: an input with an unknown key and a name that differs
  from the node's is rejected for the name, and the unknown key is not reported.
\<close>

theorem invalid_key_after_name_counterexample:
  "UpdateFromJson_at sample_util 0
     [(''name'', IString ''other''), (''bogus_field'', IBool True)] mem_world =
     (Fail (GErr (Errorf ''Node name web01 and other from JSON do not match.'')),
      [(''name'', IString ''other''), (''bogus_field'', IBool True)], mem_world) \<and>
   Errorf ''Node name web01 and other from JSON do not match.'' \<noteq>
     Errorf ''Invalid key bogus_field in request body''"
  by (simp add: UpdateFromJson_at_def UpdateFromJson_def sample_util_def json_get_def
      mem_world_def web01_def Errorf_def)

subsection \<open>The name cannot change\<close>

text \<open>
  Claim C3. When the name field of the input validates as a string that differs
  from the node's name, the update fails with the error
  "Node name a and b from JSON do not match." and the world is as before: the
  node on the heap, and with it the record either backend holds, is unchanged.
\<close>

theorem name_mismatch_rejected:
  assumes "p < length (heap w)"
    and "ValidateAsString u (json_get json_node ''name'') = (node_name, None)"
    and "node_name \<noteq> Name (heap w ! p)"
  shows "UpdateFromJson_at u p json_node w =
           (Fail (GErr (Errorf (''Node name '' @ Name (heap w ! p) @ '' and '' @ node_name @
              '' from JSON do not match.''))), json_node, w)"
  using assms
  by (auto simp: UpdateFromJson_at_def UpdateFromJson_def)

theorem name_mismatch_rejected_witness:
  "0 < length (heap mem_world) \<and>
   ValidateAsString sample_util (json_get [(''name'', IString ''web02'')] ''name'') = (''web02'', None) \<and>
   ''web02'' \<noteq> Name (heap mem_world ! 0) \<and>
   UpdateFromJson_at sample_util 0 [(''name'', IString ''web02'')] mem_world =
     (Fail (GErr (Errorf ''Node name web01 and web02 from JSON do not match.'')),
      [(''name'', IString ''web02'')], mem_world)"
proof -
  have h1: "0 < length (heap mem_world)" by (simp add: mem_world_def)
  have h2: "ValidateAsString sample_util (json_get [(''name'', IString ''web02'')] ''name'') =
      (''web02'', None)"
    by (simp add: sample_util_def json_get_def)
  have h3: "''web02'' \<noteq> Name (heap mem_world ! 0)" by (simp add: mem_world_def web01_def)
  have nm: "Name (heap mem_world ! 0) = ''web01''" by (simp add: mem_world_def web01_def)
  from name_mismatch_rejected [OF h1 h2 h3] h1 h2 h3 nm show ?thesis by simp
qed

subsection \<open>No partial update\<close>

text \<open>
  Claim C8. Whatever the validators are, when a call of \<^verbatim>\<open>UpdateFromJson\<close> does
  not return nil (a validation step failed), the world after the call is the
  world before it: no field of the node was assigned and nothing was stored.
  The type assertions of the assignments never panic on a node that exists, so
  no call stops between two assignments.
\<close>

theorem failed_update_changes_nothing:
  "(fst (UpdateFromJson_at u p json_node w) \<noteq> Ok () \<longrightarrow>
      snd (snd (UpdateFromJson_at u p json_node w)) = w) \<and>
   (p < length (heap w) \<longrightarrow> fst (UpdateFromJson_at u p json_node w) \<noteq> Panic)"
proof (cases "length (heap w) \<le> p")
  case True
  then show ?thesis by (simp add: UpdateFromJson_at_def)
next
  case False
  obtain r n' j' where e: "UpdateFromJson u (heap w ! p) json_node = (r, n', j')"
    by (cases "UpdateFromJson u (heap w ! p) json_node")
  have frame: "r \<noteq> Ok () \<Longrightarrow> n' = heap w ! p"
    using UpdateFromJson_not_Ok_frame [of u "heap w ! p" json_node] e by simp
  have nopanic: "r \<noteq> Panic"
    using e
    by (auto simp: UpdateFromJson_def split: prod.splits option.splits if_splits
             dest!: stages_set_fields)
  from False e frame nopanic show ?thesis
    by (auto simp: UpdateFromJson_at_def)
qed

theorem failed_update_changes_nothing_witness:
  "fst (UpdateFromJson_at sample_util 0
          [(''name'', IString ''web01''), (''chef_type'', IString ''role'')] mem_world) \<noteq> Ok () \<and>
   snd (snd (UpdateFromJson_at sample_util 0
          [(''name'', IString ''web01''), (''chef_type'', IString ''role'')] mem_world)) = mem_world \<and>
   0 < length (heap mem_world) \<and>
   fst (UpdateFromJson_at sample_util 0
          [(''name'', IString ''web01''), (''chef_type'', IString ''role'')] mem_world) \<noteq> Panic"
proof -
  have h1: "fst (UpdateFromJson_at sample_util 0
          [(''name'', IString ''web01''), (''chef_type'', IString ''role'')] mem_world) \<noteq> Ok ()"
    by (simp add: UpdateFromJson_at_def UpdateFromJson_def sample_util_def json_get_def
        json_set_def mem_world_def web01_def valid_elements_def validate_run_list_def attrs_def
        validate_chef_environment_def validate_json_class_def validate_chef_type_def
        nil_field_msg_def Errorf_def safe_name_def)
  have h2: "0 < length (heap mem_world)" by (simp add: mem_world_def)
  from failed_update_changes_nothing
         [of sample_util 0 "[(''name'', IString ''web01''), (''chef_type'', IString ''role'')]" mem_world]
       h1 h2
  show ?thesis by simp
qed

subsection \<open>The request map is written to\<close>

lemma map_of_json_set: "map_of (json_set m k v) = (map_of m)(k \<mapsto> v)"
  by (simp add: json_set_def update_conv')

lemma validate_run_list_other:
  "validate_run_list u j = (r, j1) \<Longrightarrow> k \<noteq> ''run_list'' \<Longrightarrow> map_of j1 k = map_of j k"
  by (auto simp: validate_run_list_def map_of_json_set split: prod.splits)

lemma validate_attrs_other:
  "validate_attrs u as j = (r, j') \<Longrightarrow> k \<notin> set as \<Longrightarrow> map_of j' k = map_of j k"
proof (induction as arbitrary: j)
  case Nil
  then show ?case by simp
next
  case (Cons a as)
  obtain m verr where va: "ValidateAttributes u a (json_get j a) = (m, verr)"
    by (cases "ValidateAttributes u a (json_get j a)")
  show ?case
  proof (cases verr)
    case None
    with Cons.prems va have "validate_attrs u as (json_set j a (IMap m)) = (r, j')"
      by (simp add: Let_def)
    from Cons.IH [OF this] Cons.prems(2) show ?thesis
      by (simp add: map_of_json_set)
  next
    case (Some e)
    with Cons.prems va show ?thesis
      by (auto simp: Let_def map_of_json_set)
  qed
qed

lemma validate_chef_environment_other:
  "validate_chef_environment u n j = (r, j') \<Longrightarrow> k \<noteq> ''chef_environment'' \<Longrightarrow>
     map_of j' k = map_of j k"
  by (auto simp: validate_chef_environment_def map_of_json_set Let_def
           split: prod.splits option.splits if_splits)

lemma validate_json_class_other:
  "validate_json_class u n j = (r, j') \<Longrightarrow> k \<noteq> ''json_class'' \<Longrightarrow> map_of j' k = map_of j k"
  by (auto simp: validate_json_class_def map_of_json_set Let_def
           split: prod.splits option.splits if_splits)

lemma validate_chef_type_other:
  "validate_chef_type u n j = (r, j') \<Longrightarrow> k \<noteq> ''chef_type'' \<Longrightarrow> map_of j' k = map_of j k"
  by (auto simp: validate_chef_type_def map_of_json_set Let_def
           split: prod.splits option.splits if_splits)

text \<open>
  Claim C9, as the code has it. \<^verbatim>\<open>UpdateFromJson\<close> touches no global or shared
  state (it takes and returns the node and the request map, nothing else), but it
  is not free of effects on its arguments: validation and assignment are one
  method, and each validated field is written back into the caller's map. After
  a successful call the map holds, under each of the eight validated keys, the
  very value assigned to the node's field; the name and every key outside the
  valid elements keep their binding, and the node's name is unchanged.
\<close>

theorem update_overwrites_request_map:
  assumes "UpdateFromJson u n json_node = (Ok (), n', json_node')"
  shows "Name n' = Name n \<and>
         json_get json_node' ''run_list'' = IStrings (RunList n') \<and>
         json_get json_node' ''normal'' = IMap (Normal n') \<and>
         json_get json_node' ''automatic'' = IMap (Automatic n') \<and>
         json_get json_node' ''default'' = IMap (Default n') \<and>
         json_get json_node' ''override'' = IMap (Override n') \<and>
         json_get json_node' ''chef_environment'' = IString (ChefEnvironment n') \<and>
         json_get json_node' ''json_class'' = IString (JsonClass n') \<and>
         json_get json_node' ''chef_type'' = IString (ChefType n') \<and>
         (\<forall>k. k = ''name'' \<or> k \<notin> set valid_elements \<longrightarrow>
              map_of json_node' k = map_of json_node k)"
proof -
  from UpdateFromJson_Ok_D [OF assms] obtain j1 j2 j3 j4 where
    s1: "validate_run_list u json_node = (None, j1)" and
    s2: "validate_attrs u attrs j1 = (None, j2)" and
    s3: "validate_chef_environment u n j2 = (None, j3)" and
    s4: "validate_json_class u n j3 = (None, j4)" and
    s5: "validate_chef_type u n j4 = (None, json_node')" and
    sf: "set_fields n json_node' = (Ok (), n')"
    by blast
  from stages_set_fields [OF s1 s2 s3 s4 s5] sf
  have fields: "Name n' = Name n \<and>
         json_get json_node' ''run_list'' = IStrings (RunList n') \<and>
         json_get json_node' ''normal'' = IMap (Normal n') \<and>
         json_get json_node' ''automatic'' = IMap (Automatic n') \<and>
         json_get json_node' ''default'' = IMap (Default n') \<and>
         json_get json_node' ''override'' = IMap (Override n') \<and>
         json_get json_node' ''chef_environment'' = IString (ChefEnvironment n') \<and>
         json_get json_node' ''json_class'' = IString (JsonClass n') \<and>
         json_get json_node' ''chef_type'' = IString (ChefType n')"
    by auto
  have other: "map_of json_node' k = map_of json_node k"
    if k: "k = ''name'' \<or> k \<notin> set valid_elements" for k
  proof -
    from k have ne: "k \<noteq> ''run_list''" "k \<notin> set attrs" "k \<noteq> ''chef_environment''"
      "k \<noteq> ''json_class''" "k \<noteq> ''chef_type''"
      by (auto simp: valid_elements_def attrs_def)
    show ?thesis
      by (simp add: validate_chef_type_other [OF s5 ne(5)] validate_json_class_other [OF s4 ne(4)]
          validate_chef_environment_other [OF s3 ne(3)] validate_attrs_other [OF s2 ne(2)]
          validate_run_list_other [OF s1 ne(1)])
  qed
  from fields other show ?thesis by blast
qed

theorem update_overwrites_request_map_witness:
  "UpdateFromJson sample_util web01
     [(''name'', IString ''web01''), (''run_list'', ISlice [IString ''recipe[nginx]''])] =
     (Ok (), web01\<lparr>RunList := [''recipe[nginx]'']\<rparr>,
      [(''name'', IString ''web01''), (''run_list'', IStrings [''recipe[nginx]'']),
       (''normal'', IMap []), (''automatic'', IMap []), (''default'', IMap []),
       (''override'', IMap []), (''chef_environment'', IString ''_default''),
       (''json_class'', IString ''Chef::Node''), (''chef_type'', IString ''node'')]) \<and>
   json_get [(''name'', IString ''web01''), (''run_list'', IStrings [''recipe[nginx]'']),
       (''normal'', IMap []), (''automatic'', IMap []), (''default'', IMap []),
       (''override'', IMap []), (''chef_environment'', IString ''_default''),
       (''json_class'', IString ''Chef::Node''), (''chef_type'', IString ''node'')] ''run_list'' =
     IStrings (RunList (web01\<lparr>RunList := [''recipe[nginx]'']\<rparr>))"
proof -
  have h: "UpdateFromJson sample_util web01
     [(''name'', IString ''web01''), (''run_list'', ISlice [IString ''recipe[nginx]''])] =
     (Ok (), web01\<lparr>RunList := [''recipe[nginx]'']\<rparr>,
      [(''name'', IString ''web01''), (''run_list'', IStrings [''recipe[nginx]'']),
       (''normal'', IMap []), (''automatic'', IMap []), (''default'', IMap []),
       (''override'', IMap []), (''chef_environment'', IString ''_default''),
       (''json_class'', IString ''Chef::Node''), (''chef_type'', IString ''node'')])"
    by (simp add: UpdateFromJson_def sample_util_def json_get_def json_set_def web01_def
        valid_elements_def validate_run_list_def attrs_def validate_chef_environment_def
        validate_json_class_def validate_chef_type_def set_fields_def nil_field_msg_def
        Errorf_def safe_name_def)
  from update_overwrites_request_map [OF h] h show ?thesis by blast
qed

text \<open>
  Claim C9 as stated fails: the caller-supplied map is modified. A request that
  holds the name alone comes back with eight more keys.
\<close>

theorem request_map_modified_counterexample:
  "snd (snd (UpdateFromJson sample_util web01 [(''name'', IString ''web01'')])) =
     [(''name'', IString ''web01''), (''run_list'', IStrings []),
      (''normal'', IMap []), (''automatic'', IMap []), (''default'', IMap []),
      (''override'', IMap []), (''chef_environment'', IString ''_default''),
      (''json_class'', IString ''Chef::Node''), (''chef_type'', IString ''node'')] \<and>
   snd (snd (UpdateFromJson sample_util web01 [(''name'', IString ''web01'')])) \<noteq>
     [(''name'', IString ''web01'')]"
  by (simp add: UpdateFromJson_def sample_util_def json_get_def json_set_def web01_def
      valid_elements_def validate_run_list_def attrs_def validate_chef_environment_def
      validate_json_class_def validate_chef_type_def set_fields_def nil_field_msg_def
      Errorf_def safe_name_def)

subsection \<open>The three tag-like fields\<close>

lemma tag_rule_cases:
  obtains (nil) "v = INil" | (str) s where "v = IString s"
  | (other) "v \<noteq> INil" "\<forall>s. v \<noteq> IString s"
  by (cases v) auto

lemma validate_chef_environment_rule:
  assumes nil: "ValidateAsFieldString u INil = (z, Some e0)" "gerror_msg e0 = nil_field_msg"
    and str: "\<And>s. ValidateAsFieldString u (IString s) = (s, None)"
    and other: "\<And>v. v \<noteq> INil \<Longrightarrow> \<forall>s. v \<noteq> IString s \<Longrightarrow>
                  \<exists>x e. ValidateAsFieldString u v = (x, Some e) \<and> gerror_msg e \<noteq> nil_field_msg"
  shows "case tag_rule (json_get j ''chef_environment'') (ChefEnvironment n) (ValidateEnvName u) of
           Some v \<Rightarrow> (\<exists>j'. validate_chef_environment u n j = (None, j') \<and>
                            json_get j' ''chef_environment'' = IString v)
         | None \<Rightarrow> (\<exists>e j'. validate_chef_environment u n j = (Some e, j'))"
proof (cases "json_get j ''chef_environment''" rule: tag_rule_cases)
  case nil
  with assms(1,2) show ?thesis
    by (simp add: tag_rule_def validate_chef_environment_def json_get_set)
next
  case (str s)
  with assms(3) show ?thesis
    by (simp add: tag_rule_def validate_chef_environment_def json_get_set)
next
  case other
  from assms(4) [OF other] obtain x e where
    "ValidateAsFieldString u (json_get j ''chef_environment'') = (x, Some e)"
    "gerror_msg e \<noteq> nil_field_msg" by blast
  with other show ?thesis
    by (cases "json_get j ''chef_environment''")
       (simp_all add: tag_rule_def validate_chef_environment_def)
qed

lemma validate_json_class_rule:
  assumes nil: "ValidateAsFieldString u INil = (z, Some e0)" "gerror_msg e0 = nil_field_msg"
    and str: "\<And>s. ValidateAsFieldString u (IString s) = (s, None)"
    and other: "\<And>v. v \<noteq> INil \<Longrightarrow> \<forall>s. v \<noteq> IString s \<Longrightarrow>
                  \<exists>x e. ValidateAsFieldString u v = (x, Some e) \<and> gerror_msg e \<noteq> nil_field_msg"
  shows "case tag_rule (json_get j ''json_class'') (JsonClass n) (\<lambda>s. s = ''Chef::Node'') of
           Some v \<Rightarrow> (\<exists>j'. validate_json_class u n j = (None, j') \<and>
                            json_get j' ''json_class'' = IString v)
         | None \<Rightarrow> (\<exists>e j'. validate_json_class u n j = (Some e, j'))"
proof (cases "json_get j ''json_class''" rule: tag_rule_cases)
  case nil
  with assms(1,2) show ?thesis
    by (simp add: tag_rule_def validate_json_class_def json_get_set)
next
  case (str s)
  with assms(3) show ?thesis
    by (simp add: tag_rule_def validate_json_class_def json_get_set)
next
  case other
  from assms(4) [OF other] obtain x e where
    "ValidateAsFieldString u (json_get j ''json_class'') = (x, Some e)"
    "gerror_msg e \<noteq> nil_field_msg" by blast
  with other show ?thesis
    by (cases "json_get j ''json_class''")
       (simp_all add: tag_rule_def validate_json_class_def)
qed

lemma validate_chef_type_rule:
  assumes nil: "ValidateAsFieldString u INil = (z, Some e0)" "gerror_msg e0 = nil_field_msg"
    and str: "\<And>s. ValidateAsFieldString u (IString s) = (s, None)"
    and other: "\<And>v. v \<noteq> INil \<Longrightarrow> \<forall>s. v \<noteq> IString s \<Longrightarrow>
                  \<exists>x e. ValidateAsFieldString u v = (x, Some e) \<and> gerror_msg e \<noteq> nil_field_msg"
  shows "case tag_rule (json_get j ''chef_type'') (ChefType n) (\<lambda>s. s = ''node'') of
           Some v \<Rightarrow> (\<exists>j'. validate_chef_type u n j = (None, j') \<and>
                            json_get j' ''chef_type'' = IString v)
         | None \<Rightarrow> (\<exists>e j'. validate_chef_type u n j = (Some e, j'))"
proof (cases "json_get j ''chef_type''" rule: tag_rule_cases)
  case nil
  with assms(1,2) show ?thesis
    by (simp add: tag_rule_def validate_chef_type_def json_get_set)
next
  case (str s)
  with assms(3) show ?thesis
    by (simp add: tag_rule_def validate_chef_type_def json_get_set)
next
  case other
  from assms(4) [OF other] obtain x e where
    "ValidateAsFieldString u (json_get j ''chef_type'') = (x, Some e)"
    "gerror_msg e \<noteq> nil_field_msg" by blast
  with other show ?thesis
    by (cases "json_get j ''chef_type''")
       (simp_all add: tag_rule_def validate_chef_type_def)
qed

text \<open>
  Claim C4. Let \<^verbatim>\<open>ValidateAsFieldString\<close> behave as node.go expects of it: on nil
  (a field that is absent or null) it returns the error whose message is
  "Field 'name' nil", on a string it returns that string, and on any other value
  it returns another error. Then, once the name, the whitelist, the run list and
  the attribute trees have passed, the update follows the absent-means-inherit
  rule for \<^verbatim>\<open>chef_environment\<close>, \<^verbatim>\<open>json_class\<close> and \<^verbatim>\<open>chef_type\<close>: when each field
  is absent, null, or a string that passes its check (the environment-name rule,
  equality with "Chef::Node", equality with "node"), the update succeeds and the
  node holds the inherited or the given value; otherwise the update fails with
  an error and the node is unchanged.
\<close>

theorem tag_fields_inherit_or_validate:
  assumes nil: "ValidateAsFieldString u INil = (z, Some e0)" "gerror_msg e0 = nil_field_msg"
    and str: "\<And>s. ValidateAsFieldString u (IString s) = (s, None)"
    and other: "\<And>v. v \<noteq> INil \<Longrightarrow> \<forall>s. v \<noteq> IString s \<Longrightarrow>
                  \<exists>x e. ValidateAsFieldString u v = (x, Some e) \<and> gerror_msg e \<noteq> nil_field_msg"
    and name: "ValidateAsString u (json_get json_node ''name'') = (Name n, None)"
    and elems: "ValidElem (map fst json_node) = None"
    and rl: "validate_run_list u json_node = (None, j1)"
    and at: "validate_attrs u attrs j1 = (None, j2)"
  shows "case (tag_rule (json_get json_node ''chef_environment'') (ChefEnvironment n) (ValidateEnvName u),
               tag_rule (json_get json_node ''json_class'') (JsonClass n) (\<lambda>s. s = ''Chef::Node''),
               tag_rule (json_get json_node ''chef_type'') (ChefType n) (\<lambda>s. s = ''node'')) of
           (Some env, Some cls, Some ty) \<Rightarrow>
             (\<exists>n' j'. UpdateFromJson u n json_node = (Ok (), n', j') \<and>
                ChefEnvironment n' = env \<and> JsonClass n' = cls \<and> ChefType n' = ty)
         | _ \<Rightarrow> (\<exists>e j'. UpdateFromJson u n json_node = (Fail (GErr e), n, j'))"
proof -
  have d: "distinct attrs" by (simp add: attrs_def)
  have g2: "json_get j2 k = json_get json_node k"
    if "k \<in> {''chef_environment'', ''json_class'', ''chef_type''}" for k
    using that by (auto simp: validate_attrs_get [OF at d] validate_run_list_get [OF rl] attrs_def)
  note r3 = validate_chef_environment_rule [OF nil str other, where j = j2 and n = n]
  show ?thesis
  proof (cases "tag_rule (json_get json_node ''chef_environment'') (ChefEnvironment n) (ValidateEnvName u)")
    case None
    with r3 g2 obtain e j3 where "validate_chef_environment u n j2 = (Some e, j3)" by auto
    with name elems rl at None show ?thesis
      by (simp add: UpdateFromJson_def)
  next
    case (Some env)
    with r3 g2 obtain j3 where s3: "validate_chef_environment u n j2 = (None, j3)"
      and v3: "json_get j3 ''chef_environment'' = IString env" by auto
    have g3: "json_get j3 k = json_get json_node k" if "k \<in> {''json_class'', ''chef_type''}" for k
      using that g2 by (auto simp: tag_env_get [OF s3])
    note r4 = validate_json_class_rule [OF nil str other, where j = j3 and n = n]
    show ?thesis
    proof (cases "tag_rule (json_get json_node ''json_class'') (JsonClass n) (\<lambda>s. s = ''Chef::Node'')")
      case None
      with r4 g3 obtain e j4 where "validate_json_class u n j3 = (Some e, j4)" by auto
      with name elems rl at s3 Some None show ?thesis
        by (simp add: UpdateFromJson_def)
    next
      case (Some cls)
      note cls = Some
      with r4 g3 obtain j4 where s4: "validate_json_class u n j3 = (None, j4)"
        and v4: "json_get j4 ''json_class'' = IString cls" by auto
      have g4: "json_get j4 ''chef_type'' = json_get json_node ''chef_type''"
        using g3 by (simp add: tag_class_get [OF s4])
      note r5 = validate_chef_type_rule [OF nil str other, where j = j4 and n = n]
      show ?thesis
      proof (cases "tag_rule (json_get json_node ''chef_type'') (ChefType n) (\<lambda>s. s = ''node'')")
        case None
        with r5 g4 obtain e j5 where "validate_chef_type u n j4 = (Some e, j5)" by auto
        with name elems rl at s3 s4 \<open>tag_rule (json_get json_node ''chef_environment'') (ChefEnvironment n) (ValidateEnvName u) = Some env\<close> cls None
        show ?thesis
          by (simp add: UpdateFromJson_def)
      next
        case (Some ty)
        with r5 g4 obtain j5 where s5: "validate_chef_type u n j4 = (None, j5)"
          and v5: "json_get j5 ''chef_type'' = IString ty" by auto
        from stages_set_fields [OF rl at s3 s4 s5] obtain n' where
          sf: "set_fields n j5 = (Ok (), n')" and
          f: "json_get j5 ''chef_environment'' = IString (ChefEnvironment n')"
             "json_get j5 ''chef_type'' = IString (ChefType n')"
             "json_get j5 ''json_class'' = IString (JsonClass n')"
          by blast
        have e5: "json_get j5 ''chef_environment'' = IString env"
          using v3 by (simp add: tag_type_get [OF s5] tag_class_get [OF s4])
        have c5: "json_get j5 ''json_class'' = IString cls"
          using v4 by (simp add: tag_type_get [OF s5])
        from f e5 c5 v5 have vals: "ChefEnvironment n' = env" "JsonClass n' = cls" "ChefType n' = ty"
          by simp_all
        have "UpdateFromJson u n json_node = (Ok (), n', j5)"
          using name elems rl at s3 s4 s5 sf by (simp add: UpdateFromJson_def)
        with vals \<open>tag_rule (json_get json_node ''chef_environment'') (ChefEnvironment n) (ValidateEnvName u) = Some env\<close> cls Some
        show ?thesis by simp
      qed
    qed
  qed
qed

theorem tag_fields_inherit_or_validate_witness:
  "(\<exists>n' j'. UpdateFromJson sample_util web01
       [(''name'', IString ''web01''), (''chef_environment'', IString ''prod'')] = (Ok (), n', j') \<and>
       ChefEnvironment n' = ''prod'' \<and> JsonClass n' = ''Chef::Node'' \<and> ChefType n' = ''node'') \<and>
   (\<exists>e j'. UpdateFromJson sample_util web01
       [(''name'', IString ''web01''), (''chef_type'', IString ''role'')] = (Fail (GErr e), web01, j'))"
proof -
  have nil: "ValidateAsFieldString sample_util INil = ([], Some (Errorf nil_field_msg))"
    by (simp add: sample_util_def)
  have msg: "gerror_msg (Errorf nil_field_msg) = nil_field_msg"
    by (simp add: Errorf_def)
  have str: "ValidateAsFieldString sample_util (IString s) = (s, None)" for s
    by (simp add: sample_util_def)
  have other: "\<exists>x e. ValidateAsFieldString sample_util v = (x, Some e) \<and> gerror_msg e \<noteq> nil_field_msg"
    if "v \<noteq> INil" "\<forall>s. v \<noteq> IString s" for v
    using that
    by (cases v) (simp_all add: sample_util_def Errorf_def missing_field_msg_def nil_field_msg_def)
  let ?A = "[(''name'', IString ''web01''), (''chef_environment'', IString ''prod'')]"
  let ?B = "[(''name'', IString ''web01''), (''chef_type'', IString ''role'')]"
  have a1: "ValidateAsString sample_util (json_get ?A ''name'') = (Name web01, None)"
    by (simp add: sample_util_def json_get_def web01_def)
  have a2: "ValidElem (map fst ?A) = None" by (simp add: valid_elements_def)
  have a3: "validate_run_list sample_util ?A = (None, json_set ?A ''run_list'' (IStrings []))"
    by (simp add: validate_run_list_def sample_util_def json_get_def)
  obtain ja where a4: "validate_attrs sample_util attrs (json_set ?A ''run_list'' (IStrings [])) = (None, ja)"
    by (simp add: attrs_def sample_util_def json_get_def json_set_def)
  have b1: "ValidateAsString sample_util (json_get ?B ''name'') = (Name web01, None)"
    by (simp add: sample_util_def json_get_def web01_def)
  have b2: "ValidElem (map fst ?B) = None" by (simp add: valid_elements_def)
  have b3: "validate_run_list sample_util ?B = (None, json_set ?B ''run_list'' (IStrings []))"
    by (simp add: validate_run_list_def sample_util_def json_get_def)
  obtain jb where b4: "validate_attrs sample_util attrs (json_set ?B ''run_list'' (IStrings [])) = (None, jb)"
    by (simp add: attrs_def sample_util_def json_get_def json_set_def)
  have ta: "tag_rule (json_get ?A ''chef_environment'') (ChefEnvironment web01) (ValidateEnvName sample_util) = Some ''prod''"
       "tag_rule (json_get ?A ''json_class'') (JsonClass web01) (\<lambda>s. s = ''Chef::Node'') = Some ''Chef::Node''"
       "tag_rule (json_get ?A ''chef_type'') (ChefType web01) (\<lambda>s. s = ''node'') = Some ''node''"
    by (simp_all add: tag_rule_def json_get_def web01_def sample_util_def safe_name_def)
  have tb: "tag_rule (json_get ?B ''chef_type'') (ChefType web01) (\<lambda>s. s = ''node'') = None"
    by (simp add: tag_rule_def json_get_def)
  from tag_fields_inherit_or_validate [OF nil msg str other a1 a2 a3 a4] ta
  have A: "\<exists>n' j'. UpdateFromJson sample_util web01 ?A = (Ok (), n', j') \<and>
       ChefEnvironment n' = ''prod'' \<and> JsonClass n' = ''Chef::Node'' \<and> ChefType n' = ''node''"
    by simp
  from tag_fields_inherit_or_validate [OF nil msg str other b1 b2 b3 b4] tb
  have B: "\<exists>e j'. UpdateFromJson sample_util web01 ?B = (Fail (GErr e), web01, j')"
    by (simp split: option.splits)
  from A B show ?thesis by blast
qed

section \<open>Properties of the storage operations\<close>

subsection \<open>Looking rows up\<close>

lemma map_of_pairs_None: "map_of (map (\<lambda>r. (f r, g r)) xs) k = None \<longleftrightarrow> k \<notin> set (map f xs)"
  by (induction xs) auto

lemma CheckForOne_nodes_present:
  assumes "name \<in> set (map n_name (nodes db))" and "drv DbQuery = None"
  shows "\<exists>i. CheckForOne drv db ''nodes'' name = Inr i"
proof -
  from assms(1) have "map_of (map (\<lambda>r. (n_name r, n_id r)) (nodes db)) name \<noteq> None"
    by (simp only: map_of_pairs_None) simp
  with assms(2) show ?thesis
    by (auto simp: CheckForOne_def)
qed

lemma first_by_name:
  "map_of (map (\<lambda>r. (n_name r, n_id r)) rows) name = Some i \<Longrightarrow>
     \<exists>xs r ys. rows = xs @ r # ys \<and> name \<notin> set (map n_name xs) \<and> n_name r = name \<and> n_id r = i"
proof (induction rows)
  case Nil
  then show ?case by simp
next
  case (Cons a rows)
  show ?case
  proof (cases "n_name a = name")
    case True
    with Cons.prems have "n_id a = i" by simp
    with True have "a # rows = [] @ a # rows \<and> name \<notin> set (map n_name []) \<and> n_name a = name \<and> n_id a = i"
      by simp
    then show ?thesis by blast
  next
    case False
    with Cons.prems have "map_of (map (\<lambda>r. (n_name r, n_id r)) rows) name = Some i" by simp
    from Cons.IH [OF this] obtain xs r ys where
      "rows = xs @ r # ys" "name \<notin> set (map n_name xs)" "n_name r = name" "n_id r = i" by blast
    with False have "a # rows = (a # xs) @ r # ys \<and> name \<notin> set (map n_name (a # xs)) \<and>
        n_name r = name \<and> n_id r = i" by simp
    then show ?thesis by blast
  qed
qed

lemma env_by_name:
  "map_of (map (\<lambda>r. (e_name r, e_id r)) envs) name = Some i \<Longrightarrow> i \<in> set (map e_id envs)"
  by (induction envs) (auto split: if_splits)

lemma find_env_by_name:
  "name \<in> set (map e_name envs) \<Longrightarrow> \<exists>e. find (\<lambda>e. e_name e = name) envs = Some e \<and> e \<in> set envs"
  by (induction envs) auto

lemma find_env_absent:
  "name \<notin> set (map e_name envs) \<Longrightarrow> find (\<lambda>e. e_name e = name) envs = None"
  by (induction envs) auto

lemma join_nonempty:
  "\<exists>e\<in>set envs. P e \<Longrightarrow> \<exists>e rest. concat (map (\<lambda>e. if P e then [f e] else []) envs) = f e # rest"
  by (induction envs) auto

lemma select_node_head:
  assumes "nodes db = xs @ r # ys" and "name \<notin> set (map n_name xs)" and "n_name r = name"
    and "n_environment_id r \<in> set (map e_id (environments db))"
  shows "\<exists>ename rest. select_node db name =
           (name, ename, n_run_list r, n_automatic_attr r, n_normal_attr r,
            n_default_attr r, n_override_attr r) # rest"
proof -
  let ?row = "\<lambda>n e. (n_name n, e_name e, n_run_list n, n_automatic_attr n, n_normal_attr n,
                   n_default_attr n, n_override_attr n)"
  let ?inner = "\<lambda>n. concat (map (\<lambda>e. if n_environment_id n = e_id e \<and> n_name n = name
                   then [?row n e] else []) (environments db))"
  have split: "select_node db name = concat (map ?inner xs) @ ?inner r @ concat (map ?inner ys)"
    by (simp add: select_node_def assms(1))
  have skip: "concat (map ?inner xs) = []"
    using assms(2) by (induction xs) auto
  from assms(3,4) have "\<exists>e\<in>set (environments db). n_environment_id r = e_id e \<and> n_name r = name"
    by auto
  from join_nonempty [OF this, of "?row r"]
  obtain e :: env_row and rest where inner: "?inner r = ?row r e # rest"
    by blast
  have "select_node db name = ?row r e # (rest @ concat (map ?inner ys))"
    unfolding split skip inner by simp
  with assms(3) show ?thesis by auto
qed

lemma select_node_absent:
  "node_name \<notin> set (map n_name (nodes db)) \<Longrightarrow> select_node db node_name = []"
  by (auto simp: select_node_def)

subsection \<open>New refuses a name that is taken\<close>

text \<open>
  Claim C6. When the name is present in the store of the backend in use, \<^verbatim>\<open>New\<close>
  fails and leaves the world as it was: no record is written and the existing
  one is untouched. The error is "Node name already exists" with the HTTP status
  409 (Conflict); only when the database driver itself fails on the probe is it
  the driver's error with status 500 instead.
\<close>

theorem New_existing_name_conflict:
  assumes "node_present w name"
  shows "snd (New u name w) = w \<and>
         (\<exists>e. fst (New u name w) = Fail e) \<and>
         ((UseMySQL w \<longrightarrow> driver w DbQuery = None) \<longrightarrow>
           fst (New u name w) =
             Fail (GErr (Gerror (''Node '' @ name @ '' already exists'') (Some StatusConflict))))"
proof (cases "UseMySQL w")
  case False
  with assms show ?thesis
    by (simp add: New_def node_present_def ds_Get_def SetStatus_def Errorf_def)
next
  case True
  show ?thesis
  proof (cases "driver w DbQuery")
    case None
    from assms True have "name \<in> set (map n_name (nodes (Dbh w)))"
      by (simp add: node_present_def)
    from CheckForOne_nodes_present [where drv = "driver w" and db = "Dbh w", OF this None] obtain i where
      "CheckForOne (driver w) (Dbh w) ''nodes'' name = Inr i" by blast
    with True show ?thesis
      by (simp add: New_def SetStatus_def Errorf_def)
  next
    case (Some m)
    with True show ?thesis
      by (simp add: New_def CheckForOne_def)
  qed
qed

theorem New_existing_name_conflict_witness:
  "node_present mem_world ''web01'' \<and> node_present (sql_world web01) ''web01'' \<and>
   New sample_util ''web01'' mem_world =
     (Fail (GErr (Gerror ''Node web01 already exists'' (Some 409))), mem_world) \<and>
   New sample_util ''web01'' (sql_world web01) =
     (Fail (GErr (Gerror ''Node web01 already exists'' (Some 409))), sql_world web01)"
proof -
  have h1: "node_present mem_world ''web01''"
    by (simp add: node_present_def mem_world_def)
  have h2: "node_present (sql_world web01) ''web01''"
    by (simp add: node_present_def sql_world_def)
  have d1: "UseMySQL mem_world \<longrightarrow> driver mem_world DbQuery = None"
    by (simp add: mem_world_def)
  have d2: "UseMySQL (sql_world web01) \<longrightarrow> driver (sql_world web01) DbQuery = None"
    by (simp add: sql_world_def)
  from New_existing_name_conflict [OF h1, of sample_util] d1
  have a: "New sample_util ''web01'' mem_world =
     (Fail (GErr (Gerror ''Node web01 already exists'' (Some 409))), mem_world)"
    by (simp add: prod_eq_iff StatusConflict_def)
  from New_existing_name_conflict [OF h2, of sample_util] d2
  have b: "New sample_util ''web01'' (sql_world web01) =
     (Fail (GErr (Gerror ''Node web01 already exists'' (Some 409))), sql_world web01)"
    by (simp add: prod_eq_iff StatusConflict_def)
  from h1 h2 a b show ?thesis by blast
qed

subsection \<open>Get of a name that is not stored\<close>

text \<open>
  With the database, a name that has no row comes back as the error
  "node 'name' not found" and no node.
\<close>

lemma Get_sql_missing_not_found:
  assumes "UseMySQL w" and "driver w DbPrepare = None" and "driver w DbQuery = None"
    and "node_name \<notin> set (map n_name (nodes (Dbh w)))"
  shows "fst (Get c node_name w) = Fail (Err (not_found_msg node_name))"
  using assms select_node_absent [OF assms(4)]
  by (simp add: Get_def QueryRow_def fillNodeFromSQL_def Let_def)

text \<open>
  Without the database, the type assertion of line 186 runs on the nil interface
  the store returns for a missing name, before \<^verbatim>\<open>found\<close> is looked at.
\<close>

lemma Get_in_memory_missing_panics:
  "\<not> UseMySQL w \<Longrightarrow> store w (''node'', node_name) = None \<Longrightarrow> Get c node_name w = (Panic, w)"
  by (simp add: Get_def ds_Get_def)

lemma Get_in_memory_found:
  "\<not> UseMySQL w \<Longrightarrow> store w (''node'', node_name) = Some p \<Longrightarrow> Get c node_name w = (Ok p, w)"
  by (simp add: Get_def ds_Get_def)

text \<open>
  Claim C7 fails in the in-memory backend: fetching \<^verbatim>\<open>web02\<close> from a store that
  holds only \<^verbatim>\<open>web01\<close> panics where the claim has a not-found error.
\<close>

theorem Get_missing_in_memory_panics:
  "store mem_world (''node'', ''web02'') = None \<and>
   Get sample_codec ''web02'' mem_world = (Panic, mem_world)"
  by (simp add: Get_def ds_Get_def mem_world_def)

subsection \<open>Save in the in-memory backend\<close>

text \<open>
  Claim C10. In the in-memory backend \<^verbatim>\<open>Save\<close> returns nil for every node there
  is, whatever its fields hold: it stores the pointer it was called on under the
  node's current name and then indexes the node. Nothing checks the name; the
  check of \<^verbatim>\<open>util.ValidateDBagName\<close> is in \<^verbatim>\<open>New\<close>, which fails for every name that
  does not pass it and creates nothing.
\<close>

theorem Save_in_memory_never_validates:
  assumes "\<not> UseMySQL w" and "p < length (heap w)"
  shows "Save u c p w =
           (Ok (), w\<lparr>store := (store w)((''node'', Name (heap w ! p)) \<mapsto> p),
                     index := (index w)((''node'', Name (heap w ! p)) \<mapsto> Flatten u (heap w ! p))\<rparr>) \<and>
         (\<not> ValidateDBagName u name \<longrightarrow>
            snd (New u name w) = w \<and> (\<exists>e. fst (New u name w) = Fail e))"
  using assms
  by (auto simp: Save_def ds_Set_def IndexObj_def Index_def DocId_def Let_def New_def
           split: option.splits prod.splits)

theorem Save_in_memory_never_validates_witness:
  "\<not> UseMySQL unnamed_world \<and> 0 < length (heap unnamed_world) \<and>
   Name (heap unnamed_world ! 0) = [] \<and> \<not> ValidateDBagName sample_util [] \<and>
   fst (Save sample_util sample_codec 0 unnamed_world) = Ok () \<and>
   store (snd (Save sample_util sample_codec 0 unnamed_world)) (''node'', []) = Some 0 \<and>
   (\<exists>e. fst (New sample_util [] unnamed_world) = Fail e)"
proof -
  have h1: "\<not> UseMySQL unnamed_world" by (simp add: unnamed_world_def)
  have h2: "0 < length (heap unnamed_world)" by (simp add: unnamed_world_def)
  have h3: "Name (heap unnamed_world ! 0) = []" by (simp add: unnamed_world_def zero_Node_def)
  have h4: "\<not> ValidateDBagName sample_util []" by (simp add: sample_util_def safe_name_def)
  from Save_in_memory_never_validates [OF h1 h2, of sample_util sample_codec "[]"] h1 h2 h3 h4
  show ?thesis by simp
qed

subsection \<open>Save in the relational backend\<close>

text \<open>
  When the environment exists and the driver does not fail, \<^verbatim>\<open>Save\<close> commits a
  database in which the first row of the node's name holds the five blobs just
  encoded and refers to an environment that exists, whether the row was updated
  or inserted.
\<close>

lemma Save_sql_written:
  assumes nf: "driver w DbBegin = None" "driver w DbQuery = None" "driver w DbExec = None"
    and env: "ChefEnvironment n \<in> set (map e_name (environments (Dbh w)))"
    and enc: "EncodeBlob c (IStrings (RunList n)) = Inr rlb"
             "EncodeBlob c (IMap (Automatic n)) = Inr aab"
             "EncodeBlob c (IMap (Normal n)) = Inr nab"
             "EncodeBlob c (IMap (Default n)) = Inr dab"
             "EncodeBlob c (IMap (Override n)) = Inr oab"
  shows "\<exists>db' xs r ys. Save_sql c n w = Inr (w\<lparr>Dbh := db'\<rparr>) \<and>
           nodes db' = xs @ r # ys \<and> Name n \<notin> set (map n_name xs) \<and> n_name r = Name n \<and>
           n_environment_id r \<in> set (map e_id (environments db')) \<and>
           n_run_list r = rlb \<and> n_automatic_attr r = aab \<and> n_normal_attr r = nab \<and>
           n_default_attr r = dab \<and> n_override_attr r = oab"
proof (cases "map_of (map (\<lambda>r. (n_name r, n_id r)) (nodes (Dbh w))) (Name n)")
  case (Some i)
  from first_by_name [OF Some] obtain xs r ys where
    sp: "nodes (Dbh w) = xs @ r # ys" "Name n \<notin> set (map n_name xs)" "n_name r = Name n" "n_id r = i"
    by blast
  from find_env_by_name [OF env] obtain e where
    e: "find (\<lambda>e. e_name e = ChefEnvironment n) (environments (Dbh w)) = Some e"
       "e \<in> set (environments (Dbh w))" by blast
  let ?upd = "\<lambda>r. if n_id r = i
                      then r\<lparr>n_environment_id := e_id e, n_run_list := rlb,
                             n_automatic_attr := aab, n_normal_attr := nab,
                             n_default_attr := dab, n_override_attr := oab\<rparr>
                      else r"
  let ?db = "(Dbh w)\<lparr>nodes := map ?upd (nodes (Dbh w))\<rparr>"
  have sv: "Save_sql c n w = Inr (w\<lparr>Dbh := ?db\<rparr>)"
    using nf enc Some e(1) by (simp add: Save_sql_def CheckForOne_def update_nodes_def Let_def)
  have names: "map n_name (map ?upd xs) = map n_name xs" by simp
  have "nodes ?db = map ?upd xs @ ?upd r # map ?upd ys \<and>
        Name n \<notin> set (map n_name (map ?upd xs)) \<and> n_name (?upd r) = Name n \<and>
        n_environment_id (?upd r) \<in> set (map e_id (environments ?db)) \<and>
        n_run_list (?upd r) = rlb \<and> n_automatic_attr (?upd r) = aab \<and>
        n_normal_attr (?upd r) = nab \<and> n_default_attr (?upd r) = dab \<and>
        n_override_attr (?upd r) = oab"
    using sp e(2) by (simp only: names) simp
  with sv show ?thesis by blast
next
  case None
  from env have "map_of (map (\<lambda>r. (e_name r, e_id r)) (environments (Dbh w))) (ChefEnvironment n) \<noteq> None"
    by (simp only: map_of_pairs_None) simp
  then obtain eid where
    eid: "map_of (map (\<lambda>r. (e_name r, e_id r)) (environments (Dbh w))) (ChefEnvironment n) = Some eid"
    by blast
  let ?r = "\<lparr>n_id = foldr max (map n_id (nodes (Dbh w))) 0 + 1, n_name = Name n,
          n_environment_id = eid, n_run_list = rlb, n_automatic_attr = aab,
          n_normal_attr = nab, n_default_attr = dab, n_override_attr = oab\<rparr>"
  let ?db = "(Dbh w)\<lparr>nodes := nodes (Dbh w) @ [?r]\<rparr>"
  have sv: "Save_sql c n w = Inr (w\<lparr>Dbh := ?db\<rparr>)"
    using nf enc None eid by (simp add: Save_sql_def CheckForOne_def insert_node_def Let_def)
  from None have absent: "Name n \<notin> set (map n_name (nodes (Dbh w)))"
    by (metis map_of_pairs_None)
  have "nodes ?db = nodes (Dbh w) @ ?r # [] \<and>
        Name n \<notin> set (map n_name (nodes (Dbh w))) \<and> n_name ?r = Name n \<and>
        n_environment_id ?r \<in> set (map e_id (environments ?db)) \<and>
        n_run_list ?r = rlb \<and> n_automatic_attr ?r = aab \<and>
        n_normal_attr ?r = nab \<and> n_default_attr ?r = dab \<and> n_override_attr ?r = oab"
    using absent env_by_name [OF eid] by simp
  with sv show ?thesis by blast
qed

text \<open>
  A node that is new to the database and names an environment the database does
  not have is not inserted: the probe of the environment fails, the transaction
  is rolled back and the probe's error is returned.
\<close>

lemma Save_insert_missing_environment:
  assumes mysql: "UseMySQL w" and p: "p < length (heap w)"
    and nf: "driver w DbBegin = None" "driver w DbQuery = None"
    and absent: "Name (heap w ! p) \<notin> set (map n_name (nodes (Dbh w)))"
    and env: "ChefEnvironment (heap w ! p) \<notin> set (map e_name (environments (Dbh w)))"
    and enc: "EncodeBlob c (IStrings (RunList (heap w ! p))) = Inr rlb"
             "EncodeBlob c (IMap (Automatic (heap w ! p))) = Inr aab"
             "EncodeBlob c (IMap (Normal (heap w ! p))) = Inr nab"
             "EncodeBlob c (IMap (Default (heap w ! p))) = Inr dab"
             "EncodeBlob c (IMap (Override (heap w ! p))) = Inr oab"
  shows "Save u c p w = (Fail ErrNoRows, w)"
proof -
  from absent have a: "map_of (map (\<lambda>r. (n_name r, n_id r)) (nodes (Dbh w))) (Name (heap w ! p)) = None"
    by (metis map_of_pairs_None)
  from env have b: "map_of (map (\<lambda>r. (e_name r, e_id r)) (environments (Dbh w)))
      (ChefEnvironment (heap w ! p)) = None"
    by (metis map_of_pairs_None)
  from mysql p nf enc a b show ?thesis
    by (simp add: Save_def Save_sql_def CheckForOne_def Let_def)
qed

text \<open>
  A node that has a row already is another matter. The UPDATE of line 330 finds
  the environment by name inside the statement; when no environment has the
  name it changes no row and reports no error, and \<^verbatim>\<open>Save\<close> discards the count of
  rows changed. So the call commits, indexes the node and returns nil with the
  database as it was.
\<close>

lemma Save_update_missing_environment:
  assumes mysql: "UseMySQL w" and p: "p < length (heap w)"
    and nf: "driver w DbBegin = None" "driver w DbQuery = None" "driver w DbExec = None"
    and present: "Name (heap w ! p) \<in> set (map n_name (nodes (Dbh w)))"
    and env: "ChefEnvironment (heap w ! p) \<notin> set (map e_name (environments (Dbh w)))"
    and enc: "EncodeBlob c (IStrings (RunList (heap w ! p))) = Inr rlb"
             "EncodeBlob c (IMap (Automatic (heap w ! p))) = Inr aab"
             "EncodeBlob c (IMap (Normal (heap w ! p))) = Inr nab"
             "EncodeBlob c (IMap (Default (heap w ! p))) = Inr dab"
             "EncodeBlob c (IMap (Override (heap w ! p))) = Inr oab"
  shows "Save u c p w = (Ok (), IndexObj u p w)"
proof -
  from present have "map_of (map (\<lambda>r. (n_name r, n_id r)) (nodes (Dbh w))) (Name (heap w ! p)) \<noteq> None"
    by (simp only: map_of_pairs_None) simp
  then obtain i where
    "map_of (map (\<lambda>r. (n_name r, n_id r)) (nodes (Dbh w))) (Name (heap w ! p)) = Some i" by blast
  with mysql p nf enc find_env_absent [OF env] show ?thesis
    by (simp add: Save_def Save_sql_def CheckForOne_def update_nodes_def Let_def)
qed

text \<open>
  Claim C5 fails on the update path. The node \<^verbatim>\<open>web01\<close> has a row; an update
  sets its environment to \<^verbatim>\<open>staging\<close>, a well-formed name that no environment
  bears. \<^verbatim>\<open>Save\<close> returns nil and the database is unchanged, where the claim has
  the save fail with the error of the missing environment.
\<close>

theorem Save_update_unknown_environment_succeeds:
  "fst (snd (UpdateFromJson sample_util web01
       [(''name'', IString ''web01''), (''chef_environment'', IString ''staging''),
        (''run_list'', ISlice [IString ''recipe[nginx]''])])) = web01_updated \<and>
   ''staging'' \<notin> set (map e_name (environments (Dbh (sql_world web01_updated)))) \<and>
   Save sample_util sample_codec 0 (sql_world web01_updated) =
     (Ok (), IndexObj sample_util 0 (sql_world web01_updated)) \<and>
   Dbh (IndexObj sample_util 0 (sql_world web01_updated)) = Dbh (sql_world web01)"
proof -
  have u: "fst (snd (UpdateFromJson sample_util web01
       [(''name'', IString ''web01''), (''chef_environment'', IString ''staging''),
        (''run_list'', ISlice [IString ''recipe[nginx]''])])) = web01_updated"
    by (simp add: UpdateFromJson_def sample_util_def sample_codec_def web01_def web01_updated_def sql_world_def json_get_def json_set_def
        valid_elements_def validate_run_list_def attrs_def validate_chef_environment_def
        validate_json_class_def validate_chef_type_def set_fields_def nil_field_msg_def
        Errorf_def safe_name_def)
  have e: "''staging'' \<notin> set (map e_name (environments (Dbh (sql_world web01_updated))))"
    by (simp add: sql_world_def)
  have s: "Save sample_util sample_codec 0 (sql_world web01_updated) =
     (Ok (), IndexObj sample_util 0 (sql_world web01_updated))"
    by (rule Save_update_missing_environment [where rlb = "IStrings [''recipe[nginx]'']"
          and aab = "IMap []" and nab = "IMap []" and dab = "IMap []" and oab = "IMap []"])
       (simp_all add: sample_util_def sample_codec_def web01_def web01_updated_def sql_world_def)
  have d: "Dbh (IndexObj sample_util 0 (sql_world web01_updated)) = Dbh (sql_world web01)"
    by (simp add: IndexObj_def sql_world_def Let_def)
  from u e s d show ?thesis by blast
qed

subsection \<open>Saving and fetching again\<close>

lemma fillNodeFromSQL_symmetric:
  assumes "EncodeBlob c (IStrings rl) = Inr rlb" "codec_symmetric c (IStrings []) (IStrings rl)"
    and "EncodeBlob c (IMap aa) = Inr aab" "codec_symmetric c (IMap []) (IMap aa)"
    and "EncodeBlob c (IMap na) = Inr nab" "codec_symmetric c (IMap []) (IMap na)"
    and "EncodeBlob c (IMap da) = Inr dab" "codec_symmetric c (IMap []) (IMap da)"
    and "EncodeBlob c (IMap oa) = Inr oab" "codec_symmetric c (IMap []) (IMap oa)"
  shows "fillNodeFromSQL c True zero_Node (Inr (name, env, rlb, aab, nab, dab, oab)) =
           (Ok (), \<lparr>Name = name, ChefEnvironment = env, RunList = rl, JsonClass = ''Chef::Node'',
                    ChefType = ''node'', Automatic = aa, Normal = na, Default = da, Override = oa\<rparr>)"
  using assms
  by (simp add: fillNodeFromSQL_def codec_symmetric_def zero_Node_def)

text \<open>
  For every codec that is symmetric on the node's run list and four attribute
  trees (under the hints \<^verbatim>\<open>fillNodeFromSQL\<close> passes, the zero values of the fields),
  a node whose environment exists is saved and fetched again as a fresh struct
  with the same name, the same run list in the same order and the same four
  trees: each blob goes to the column, and comes back to the field, it belongs to.
\<close>

lemma Save_then_Get_roundtrip:
  assumes mysql: "UseMySQL w" and p: "p < length (heap w)"
    and nf: "driver w DbBegin = None" "driver w DbQuery = None" "driver w DbExec = None"
            "driver w DbPrepare = None"
    and env: "ChefEnvironment (heap w ! p) \<in> set (map e_name (environments (Dbh w)))"
    and sym: "codec_symmetric c (IStrings []) (IStrings (RunList (heap w ! p)))"
             "codec_symmetric c (IMap []) (IMap (Automatic (heap w ! p)))"
             "codec_symmetric c (IMap []) (IMap (Normal (heap w ! p)))"
             "codec_symmetric c (IMap []) (IMap (Default (heap w ! p)))"
             "codec_symmetric c (IMap []) (IMap (Override (heap w ! p)))"
  shows "\<exists>w1 w2 q. Save u c p w = (Ok (), w1) \<and> Get c (Name (heap w ! p)) w1 = (Ok q, w2) \<and>
           q < length (heap w2) \<and> q \<noteq> p \<and>
           Name (heap w2 ! q) = Name (heap w ! p) \<and>
           RunList (heap w2 ! q) = RunList (heap w ! p) \<and>
           Automatic (heap w2 ! q) = Automatic (heap w ! p) \<and>
           Normal (heap w2 ! q) = Normal (heap w ! p) \<and>
           Default (heap w2 ! q) = Default (heap w ! p) \<and>
           Override (heap w2 ! q) = Override (heap w ! p)"
proof -
  let ?n = "heap w ! p"
  from sym obtain rlb aab nab dab oab where
    enc: "EncodeBlob c (IStrings (RunList ?n)) = Inr rlb"
         "EncodeBlob c (IMap (Automatic ?n)) = Inr aab"
         "EncodeBlob c (IMap (Normal ?n)) = Inr nab"
         "EncodeBlob c (IMap (Default ?n)) = Inr dab"
         "EncodeBlob c (IMap (Override ?n)) = Inr oab"
    by (auto simp: codec_symmetric_def split: sum.splits)
  from Save_sql_written [OF nf(1,2,3) env enc] obtain db' xs r ys where
    sv: "Save_sql c ?n w = Inr (w\<lparr>Dbh := db'\<rparr>)" and
    nd: "nodes db' = xs @ r # ys" "Name ?n \<notin> set (map n_name xs)" "n_name r = Name ?n"
        "n_environment_id r \<in> set (map e_id (environments db'))" and
    bl: "n_run_list r = rlb" "n_automatic_attr r = aab" "n_normal_attr r = nab"
        "n_default_attr r = dab" "n_override_attr r = oab"
    by blast
  let ?w1 = "IndexObj u p (w\<lparr>Dbh := db'\<rparr>)"
  have s: "Save u c p w = (Ok (), ?w1)"
    using mysql p sv by (simp add: Save_def Let_def)
  from select_node_head [OF nd] bl obtain ename rest where
    sel: "select_node db' (Name ?n) = (Name ?n, ename, rlb, aab, nab, dab, oab) # rest"
    by auto
  have w1: "UseMySQL ?w1" "driver ?w1 = driver w" "Dbh ?w1 = db'" "heap ?w1 = heap w"
    using mysql by (simp_all add: IndexObj_def Let_def)
  let ?n' = "\<lparr>Name = Name ?n, ChefEnvironment = ename, RunList = RunList ?n,
              JsonClass = ''Chef::Node'', ChefType = ''node'', Automatic = Automatic ?n,
              Normal = Normal ?n, Default = Default ?n, Override = Override ?n\<rparr>"
  have fill: "fillNodeFromSQL c True zero_Node (Inr (Name ?n, ename, rlb, aab, nab, dab, oab)) =
      (Ok (), ?n')"
    by (rule fillNodeFromSQL_symmetric [OF enc(1) sym(1) enc(2) sym(2) enc(3) sym(3) enc(4) sym(4)
          enc(5) sym(5)])
  let ?w2 = "?w1\<lparr>heap := heap w @ [?n']\<rparr>"
  have g: "Get c (Name ?n) ?w1 = (Ok (length (heap w)), ?w2)"
    using w1 nf sel fill by (simp add: Get_def QueryRow_def Let_def)
  have "length (heap w) < length (heap ?w2) \<and> length (heap w) \<noteq> p \<and>
        heap ?w2 ! length (heap w) = ?n'"
    using p by simp
  with s g show ?thesis
    by (intro exI [of _ ?w1] exI [of _ ?w2] exI [of _ "length (heap w)"]) simp
qed

text \<open>
  The scenario of the spec: \<^verbatim>\<open>web01\<close> saved with the run list \<^verbatim>\<open>["recipe[nginx]"]\<close> and
  the override tree \<^verbatim>\<open>{"nginx": {"port": 8080}}\<close> under the environment \<^verbatim>\<open>_default\<close>,
  which exists, is fetched again with the same run list and the same tree.
\<close>

lemma Save_then_Get_roundtrip_web01:
  "\<exists>w1 w2 q.
     Save sample_util sample_codec 0
       (sql_world (web01\<lparr>RunList := [''recipe[nginx]''],
          Override := [(''nginx'', IMap [(''port'', IFloat64 8080)])]\<rparr>)) = (Ok (), w1) \<and>
     Get sample_codec ''web01'' w1 = (Ok q, w2) \<and>
     RunList (heap w2 ! q) = [''recipe[nginx]''] \<and>
     Override (heap w2 ! q) = [(''nginx'', IMap [(''port'', IFloat64 8080)])]"
proof -
  let ?n = "web01\<lparr>RunList := [''recipe[nginx]''],
          Override := [(''nginx'', IMap [(''port'', IFloat64 8080)])]\<rparr>"
  have "\<exists>w1 w2 q. Save sample_util sample_codec 0 (sql_world ?n) = (Ok (), w1) \<and>
           Get sample_codec (Name (heap (sql_world ?n) ! 0)) w1 = (Ok q, w2) \<and>
           q < length (heap w2) \<and> q \<noteq> 0 \<and>
           Name (heap w2 ! q) = Name (heap (sql_world ?n) ! 0) \<and>
           RunList (heap w2 ! q) = RunList (heap (sql_world ?n) ! 0) \<and>
           Automatic (heap w2 ! q) = Automatic (heap (sql_world ?n) ! 0) \<and>
           Normal (heap w2 ! q) = Normal (heap (sql_world ?n) ! 0) \<and>
           Default (heap w2 ! q) = Default (heap (sql_world ?n) ! 0) \<and>
           Override (heap w2 ! q) = Override (heap (sql_world ?n) ! 0)"
    by (rule Save_then_Get_roundtrip)
       (simp_all add: sql_world_def web01_def codec_symmetric_def sample_codec_def)
  then obtain w1 w2 q where
    "Save sample_util sample_codec 0 (sql_world ?n) = (Ok (), w1)"
    "Get sample_codec (Name (heap (sql_world ?n) ! 0)) w1 = (Ok q, w2)"
    "RunList (heap w2 ! q) = RunList (heap (sql_world ?n) ! 0)"
    "Override (heap w2 ! q) = Override (heap (sql_world ?n) ! 0)"
    by blast
  moreover have "heap (sql_world ?n) ! 0 = ?n"
    by (simp add: sql_world_def)
  ultimately show ?thesis
    by (auto simp: web01_def)
qed

text \<open>
  Claim C1 fails where claim C5 does. The codec is symmetric on the run list of
  the updated \<^verbatim>\<open>web01\<close>, \<^verbatim>\<open>Save\<close> returns nil, and the node fetched afterwards has
  the run list of the old row, the empty one, not the one that was saved.
\<close>

theorem saved_node_refetched_stale:
  "codec_symmetric sample_codec (IStrings []) (IStrings (RunList web01_updated)) \<and>
   RunList web01_updated = [''recipe[nginx]''] \<and>
   fst (Save sample_util sample_codec 0 (sql_world web01_updated)) = Ok () \<and>
   fst (Get sample_codec ''web01'' (snd (Save sample_util sample_codec 0 (sql_world web01_updated)))) = Ok 1 \<and>
   RunList (heap (snd (Get sample_codec ''web01''
       (snd (Save sample_util sample_codec 0 (sql_world web01_updated))))) ! 1) = []"
proof -
  have s: "Save sample_util sample_codec 0 (sql_world web01_updated) =
     (Ok (), IndexObj sample_util 0 (sql_world web01_updated))"
    by (rule Save_update_missing_environment [where rlb = "IStrings [''recipe[nginx]'']"
          and aab = "IMap []" and nab = "IMap []" and dab = "IMap []" and oab = "IMap []"])
       (simp_all add: sample_util_def sample_codec_def web01_def web01_updated_def sql_world_def)
  have g: "Get sample_codec ''web01'' (IndexObj sample_util 0 (sql_world web01_updated)) =
     (Ok 1, (IndexObj sample_util 0 (sql_world web01_updated))\<lparr>heap := [web01_updated, web01]\<rparr>)"
    by (simp add: Get_def QueryRow_def select_node_def fillNodeFromSQL_def IndexObj_def
        sample_util_def sample_codec_def web01_def web01_updated_def sql_world_def Let_def)
  have c: "codec_symmetric sample_codec (IStrings []) (IStrings (RunList web01_updated))"
    by (simp add: codec_symmetric_def sample_util_def sample_codec_def web01_def web01_updated_def sql_world_def)
  have r: "RunList web01_updated = [''recipe[nginx]'']" by (simp add: sample_util_def sample_codec_def web01_def web01_updated_def sql_world_def)
  from s g c r show ?thesis by (simp add: web01_def)
qed

end
